theory Spec2Isabelle
  imports Main "HOL-Library.Char_ord" "HOL-Library.List_Lexorder"
begin

section \<open>Python values the converter handles\<close>

text \<open>
  \<^verbatim>\<open>convert_ipynb_to_txt.py\<close> reads a notebook with \<^verbatim>\<open>json.load\<close> and walks the
  resulting Python value with \<^verbatim>\<open>dict.get\<close>, truth tests, \<^verbatim>\<open>str.join\<close>, \<^verbatim>\<open>str.rstrip\<close>
  and f-strings. The values are those \<^verbatim>\<open>json.load\<close> builds: \<^verbatim>\<open>None\<close>, booleans, integers,
  floats, strings, lists and dictionaries with string keys.

  \<^item> A Python string is a sequence of code points; one \<open>char\<close> stands for one code point,
    so the model covers the code points U+0000 to U+00FF.
  \<^item> A float takes part in this program only through its truth value and its \<^verbatim>\<open>repr\<close>;
    \<open>JFloat\<close> carries the \<^verbatim>\<open>repr\<close> text of the float (\<^verbatim>\<open>1.5\<close>, \<^verbatim>\<open>-0.0\<close>, \<^verbatim>\<open>1e+100\<close>, \<^verbatim>\<open>nan\<close>),
    which determines both.
  \<^item> A dictionary is an association list in insertion order, which is the order \<^verbatim>\<open>repr\<close>
    and iteration follow; \<^verbatim>\<open>json.load\<close> leaves no key twice.
\<close>

datatype json =
    JNull
  | JBool bool
  | JInt int
  | JFloat string
  | JStr string
  | JArr "json list"
  | JObj "(string \<times> json) list"

text \<open>
  The exceptions the converter can raise: the class, and the message \<^verbatim>\<open>str(e)\<close> of the
  exception object. \<open>ValueError\<close> stands for the errors of \<^verbatim>\<open>json.load\<close> and of decoding
  the input file.
\<close>

datatype error =
    AttributeError string
  | TypeError string
  | ValueError string
  | OSError string

fun exc_str :: "error \<Rightarrow> string" where
  "exc_str (AttributeError m) = m"
| "exc_str (TypeError m) = m"
| "exc_str (ValueError m) = m"
| "exc_str (OSError m) = m"

text \<open>The name of the type of a value, as the messages of the interpreter print it.\<close>

fun type_name :: "json \<Rightarrow> string" where
  "type_name JNull = ''NoneType''"
| "type_name (JBool b) = ''bool''"
| "type_name (JInt i) = ''int''"
| "type_name (JFloat r) = ''float''"
| "type_name (JStr s) = ''str''"
| "type_name (JArr xs) = ''list''"
| "type_name (JObj kvs) = ''dict''"

definition quoted :: "string \<Rightarrow> string" where
  "quoted s = CHR 0x27 # s @ [CHR 0x27]"

definition no_attribute :: "json \<Rightarrow> string \<Rightarrow> error" where
  "no_attribute v name =
     AttributeError (quoted (type_name v) @ '' object has no attribute '' @ quoted name)"

definition not_iterable :: "json \<Rightarrow> error" where
  "not_iterable v = TypeError (quoted (type_name v) @ '' object is not iterable'')"

subsection \<open>Truth value, \<^verbatim>\<open>or\<close>, \<^verbatim>\<open>dict.get\<close>, iteration\<close>

fun truthy :: "json \<Rightarrow> bool" where
  "truthy JNull = False"
| "truthy (JBool b) = b"
| "truthy (JInt i) = (i \<noteq> 0)"
| "truthy (JFloat r) = (r \<noteq> ''0.0'' \<and> r \<noteq> ''-0.0'')"
| "truthy (JStr s) = (s \<noteq> [])"
| "truthy (JArr xs) = (xs \<noteq> [])"
| "truthy (JObj kvs) = (kvs \<noteq> [])"

definition py_or :: "json \<Rightarrow> json \<Rightarrow> json" where
  "py_or x d = (if truthy x then x else d)"

text \<open>\<^verbatim>\<open>x.get(key, default)\<close>: only a dictionary has the method.\<close>

fun py_get :: "json \<Rightarrow> string \<Rightarrow> json \<Rightarrow> error + json" where
  "py_get (JObj kvs) k d = Inr (case map_of kvs k of None \<Rightarrow> d | Some v \<Rightarrow> v)"
| "py_get v k d = Inl (no_attribute v ''get'')"

text \<open>
  \<^verbatim>\<open>for x in v\<close>: a list yields its elements, a string its characters (each a string of
  length one), a dictionary its keys; anything else is not iterable.
\<close>

fun py_iter :: "json \<Rightarrow> error + json list" where
  "py_iter (JArr xs) = Inr xs"
| "py_iter (JStr s) = Inr (map (\<lambda>c. JStr [c]) s)"
| "py_iter (JObj kvs) = Inr (map (\<lambda>kv. JStr (fst kv)) kvs)"
| "py_iter v = Inl (not_iterable v)"

subsection \<open>Strings: \<^verbatim>\<open>join\<close>, \<^verbatim>\<open>rstrip\<close>, decimal numbers\<close>

fun is_str :: "json \<Rightarrow> bool" where
  "is_str (JStr s) = True"
| "is_str _ = False"

fun str_of :: "json \<Rightarrow> string" where
  "str_of (JStr s) = s"
| "str_of _ = []"

text \<open>\<^verbatim>\<open>"\n".join(lines)\<close> on a list of strings the program built itself.\<close>

fun join_lines :: "string list \<Rightarrow> string" where
  "join_lines [] = []"
| "join_lines [l] = l"
| "join_lines (l # ls) = l @ CHR 0x0A # join_lines ls"

text \<open>
  \<^verbatim>\<open>str.rstrip()\<close> removes trailing white space: the code points for which \<^verbatim>\<open>str.isspace\<close>
  holds, below U+0100 these are U+0009 to U+000D, U+001C to U+0020, U+0085 and U+00A0.
\<close>

definition is_space :: "char \<Rightarrow> bool" where
  "is_space c =
     (let n = (of_char c :: nat)
      in (9 \<le> n \<and> n \<le> 13) \<or> (28 \<le> n \<and> n \<le> 32) \<or> n = 133 \<or> n = 160)"

definition rstrip :: "string \<Rightarrow> string" where
  "rstrip s = rev (dropWhile is_space (rev s))"

definition digit_char :: "nat \<Rightarrow> char" where
  "digit_char d = char_of (48 + d)"

fun str_nat :: "nat \<Rightarrow> string" where
  "str_nat n = (if n < 10 then [digit_char n] else str_nat (n div 10) @ [digit_char (n mod 10)])"

declare str_nat.simps [simp del]

definition str_int :: "int \<Rightarrow> string" where
  "str_int i = (if i < 0 then CHR ''-'' # str_nat (nat (- i)) else str_nat (nat i))"

text \<open>
  \<^verbatim>\<open>"".join(v)\<close>: \<open>v\<close> must be iterable and every item a string; the message names the
  first item that is none.
\<close>

fun first_non_str :: "nat \<Rightarrow> json list \<Rightarrow> (nat \<times> json) option" where
  "first_non_str i [] = None"
| "first_non_str i (x # xs) = (if is_str x then first_non_str (Suc i) xs else Some (i, x))"

definition join_empty :: "json \<Rightarrow> error + string" where
  "join_empty v =
     (case py_iter v of
        Inl e \<Rightarrow> Inl (TypeError ''can only join an iterable'')
      | Inr xs \<Rightarrow>
          (case first_non_str 0 xs of
             None \<Rightarrow> Inr (concat (map str_of xs))
           | Some (i, x) \<Rightarrow>
               Inl (TypeError (''sequence item '' @ str_nat i @ '': expected str instance, ''
                               @ type_name x @ '' found''))))"

subsection \<open>\<^verbatim>\<open>repr\<close> and \<^verbatim>\<open>str\<close>\<close>

text \<open>
  \<^verbatim>\<open>repr\<close> of a string: single quotes, unless the string holds a single quote and no
  double quote; the quote and the backslash are escaped, tab, newline and carriage return
  are written \<^verbatim>\<open>\t \n \r\<close>, and every other code point that is not printable is
  written \<^verbatim>\<open>\xhh\<close>. Below U+0100 the printable code points are U+0020 to U+007E and
  U+00A1 to U+00FF without U+00AD.
\<close>

definition hex_digit :: "nat \<Rightarrow> char" where
  "hex_digit d = (if d < 10 then char_of (48 + d) else char_of (87 + d))"

definition is_printable :: "char \<Rightarrow> bool" where
  "is_printable c =
     (let n = (of_char c :: nat)
      in (32 \<le> n \<and> n \<le> 126) \<or> (161 \<le> n \<and> n \<noteq> 173))"

definition repr_char :: "char \<Rightarrow> char \<Rightarrow> string" where
  "repr_char q c =
     (if c = q \<or> c = CHR 0x5C then [CHR 0x5C, c]
      else if c = CHR 0x09 then [CHR 0x5C, CHR ''t'']
      else if c = CHR 0x0A then [CHR 0x5C, CHR ''n'']
      else if c = CHR 0x0D then [CHR 0x5C, CHR ''r'']
      else if is_printable c then [c]
      else [CHR 0x5C, CHR ''x'', hex_digit (of_char c div 16), hex_digit (of_char c mod 16)])"

definition repr_str :: "string \<Rightarrow> string" where
  "repr_str s =
     (let q = (if CHR 0x27 \<in> set s \<and> CHR 0x22 \<notin> set s then CHR 0x22 else CHR 0x27)
      in q # concat (map (repr_char q) s) @ [q])"

fun join_comma :: "string list \<Rightarrow> string" where
  "join_comma [] = []"
| "join_comma [l] = l"
| "join_comma (l # ls) = l @ '', '' @ join_comma ls"

primrec py_repr :: "json \<Rightarrow> string" where
  "py_repr JNull = ''None''"
| "py_repr (JBool b) = (if b then ''True'' else ''False'')"
| "py_repr (JInt i) = str_int i"
| "py_repr (JFloat r) = r"
| "py_repr (JStr s) = repr_str s"
| "py_repr (JArr xs) = ''['' @ join_comma (map py_repr xs) @ '']''"
| "py_repr (JObj kvs) =
     ''{'' @ join_comma (map (\<lambda>kr. repr_str (fst kr) @ '': '' @ snd kr)
                           (map (map_prod id py_repr) kvs)) @ ''}''"

text \<open>What an f-string field \<^verbatim>\<open>{v}\<close> prints: a string as it is, anything else as \<^verbatim>\<open>repr\<close>.\<close>

fun py_str :: "json \<Rightarrow> string" where
  "py_str (JStr s) = s"
| "py_str v = py_repr v"

section \<open>The cell renderer\<close>

definition CELL_SEPARATOR :: string where
  "CELL_SEPARATOR = CHR 0x0A # replicate 80 CHR ''-'' @ [CHR 0x0A]"

text \<open>
  One iteration of the loop over \<^verbatim>\<open>outputs\<close> (lines 48 to 65), in its three parts.
  \<open>text_lines\<close> is what lines 52 to 54 append.
\<close>

definition text_lines :: "json \<Rightarrow> error + string list" where
  "text_lines out =
     (case py_get out ''text'' JNull of
        Inl e \<Rightarrow> Inl e
      | Inr text \<Rightarrow>
          if truthy text then
            (case join_empty text of Inl e \<Rightarrow> Inl e | Inr s \<Rightarrow> Inr [rstrip s])
          else Inr [])"

text \<open>Lines 57 to 60: the \<^verbatim>\<open>text/plain\<close> entry of \<^verbatim>\<open>data\<close>, when \<^verbatim>\<open>data\<close> is a dictionary.\<close>

definition data_lines :: "json \<Rightarrow> error + string list" where
  "data_lines out =
     (case py_get out ''data'' JNull of
        Inl e \<Rightarrow> Inl e
      | Inr d \<Rightarrow>
          (case py_or d (JObj []) of
             JObj kvs \<Rightarrow>
               (case map_of kvs ''text/plain'' of
                  None \<Rightarrow> Inr []
                | Some v \<Rightarrow>
                    (case join_empty v of Inl e \<Rightarrow> Inl e | Inr s \<Rightarrow> Inr [rstrip s]))
           | _ \<Rightarrow> Inr []))"

text \<open>
  Lines 63 to 65: the traceback of an error output. \<^verbatim>\<open>line.rstrip()\<close> needs every item
  to be a string.
\<close>

definition traceback_lines :: "json \<Rightarrow> json \<Rightarrow> error + string list" where
  "traceback_lines out_type out =
     (if out_type = JStr ''error'' then
        (case py_get out ''traceback'' JNull of
           Inl e \<Rightarrow> Inl e
         | Inr t \<Rightarrow>
             (case py_iter (py_or t (JArr [])) of
                Inl e \<Rightarrow> Inl e
              | Inr ls \<Rightarrow>
                  (case first_non_str 0 ls of
                     None \<Rightarrow> Inr (map (\<lambda>l. rstrip (str_of l)) ls)
                   | Some (i, x) \<Rightarrow> Inl (no_attribute x ''rstrip''))))
      else Inr [])"

definition output_lines :: "nat \<Rightarrow> json \<Rightarrow> error + string list" where
  "output_lines oi out =
     (case py_get out ''output_type'' (JStr ''output'') of
        Inl e \<Rightarrow> Inl e
      | Inr out_type \<Rightarrow>
          (case text_lines out of
             Inl e \<Rightarrow> Inl e
           | Inr tls \<Rightarrow>
               (case data_lines out of
                  Inl e \<Rightarrow> Inl e
                | Inr dls \<Rightarrow>
                    (case traceback_lines out_type out of
                       Inl e \<Rightarrow> Inl e
                     | Inr bls \<Rightarrow>
                         Inr ((''['' @ str_nat oi @ ''] output_type: '' @ py_str out_type)
                              # tls @ dls @ bls)))))"

text \<open>The loop \<^verbatim>\<open>for oi, out in enumerate(outputs, start=1)\<close>, from index \<open>oi\<close> on.\<close>

fun outputs_loop :: "nat \<Rightarrow> json list \<Rightarrow> error + string list" where
  "outputs_loop oi [] = Inr []"
| "outputs_loop oi (out # outs) =
     (case output_lines oi out of
        Inl e \<Rightarrow> Inl e
      | Inr ls \<Rightarrow>
          (case outputs_loop (Suc oi) outs of
             Inl e \<Rightarrow> Inl e
           | Inr rest \<Rightarrow> Inr (ls @ rest)))"

definition extract_text_from_cell :: "json \<Rightarrow> error + string" where
  "extract_text_from_cell cell =
     (case py_get cell ''cell_type'' (JStr ''unknown'') of
        Inl e \<Rightarrow> Inl e
      | Inr cell_type \<Rightarrow>
     (case py_get cell ''source'' (JArr []) of
        Inl e \<Rightarrow> Inl e
      | Inr src \<Rightarrow>
     (case join_empty (py_or src (JArr [])) of
        Inl e \<Rightarrow> Inl e
      | Inr source \<Rightarrow>
          let parts = [''Cell type: '' @ py_str cell_type] in
          if cell_type = JStr ''markdown'' then
            Inr (join_lines (parts @ [''-- Markdown --'', rstrip source]))
          else if cell_type = JStr ''code'' then
            (case py_get cell ''outputs'' (JArr []) of
               Inl e \<Rightarrow> Inl e
             | Inr outs \<Rightarrow>
                 let outputs = py_or outs (JArr []) in
                 if truthy outputs then
                   (case py_iter outputs of
                      Inl e \<Rightarrow> Inl e
                    | Inr items \<Rightarrow>
                        (case outputs_loop 1 items of
                           Inl e \<Rightarrow> Inl e
                         | Inr out_lines \<Rightarrow>
                             Inr (join_lines (parts @ [''-- Code --'', rstrip source,
                                    join_lines (''-- Outputs --'' # out_lines)]))))
                 else Inr (join_lines (parts @ [''-- Code --'', rstrip source])))
          else Inr (join_lines (parts @ [rstrip source])))))"

section \<open>The document renderer\<close>

text \<open>
  \<^verbatim>\<open>os.path.basename\<close>, \<^verbatim>\<open>os.path.splitext\<close> and \<^verbatim>\<open>os.path.join\<close> as \<^verbatim>\<open>posixpath\<close>
  defines them: the separator is \<^verbatim>\<open>/\<close>, and a leading run of dots is no extension.
\<close>

definition basename :: "string \<Rightarrow> string" where
  "basename p = rev (takeWhile (\<lambda>c. c \<noteq> CHR ''/'') (rev p))"

definition splitext :: "string \<Rightarrow> string \<times> string" where
  "splitext p =
     (let name = basename p;
          ext = rev (takeWhile (\<lambda>c. c \<noteq> CHR ''.'') (rev name));
          stem = take (length name - length ext - 1) name
      in if CHR ''.'' \<in> set name \<and> list_ex (\<lambda>c. c \<noteq> CHR ''.'') stem
         then (take (length p - length ext - 1) p, CHR ''.'' # ext)
         else (p, []))"

definition path_join :: "string \<Rightarrow> string \<Rightarrow> string" where
  "path_join a b =
     (if b \<noteq> [] \<and> hd b = CHR ''/'' then b
      else if a = [] \<or> last a = CHR ''/'' then a @ b
      else a @ CHR ''/'' # b)"

text \<open>
  The loop of lines 88 to 91, from index \<open>i\<close> on. The result is the list of strings passed
  to \<^verbatim>\<open>out.write\<close>, in order, and the exception that ended the loop, if any: the header
  of a cell is written before the cell is rendered.
\<close>

definition cell_header :: "nat \<Rightarrow> string" where
  "cell_header i = ''Cell '' @ str_nat i @ [CHR 0x0A]"

fun cells_loop :: "nat \<Rightarrow> json list \<Rightarrow> string list \<times> error option" where
  "cells_loop i [] = ([], None)"
| "cells_loop i (cell # cells) =
     (case extract_text_from_cell cell of
        Inl e \<Rightarrow> ([cell_header i], Some e)
      | Inr block \<Rightarrow>
          (case cells_loop (Suc i) cells of
             (ws, r) \<Rightarrow> (cell_header i # block # CELL_SEPARATOR # ws, r)))"

text \<open>
  The body of the second \<^verbatim>\<open>with\<close> block (lines 84 to 91), given the notebook and the
  value of \<^verbatim>\<open>cells\<close> computed on line 81.
\<close>

definition notebook_writes :: "string \<Rightarrow> json \<Rightarrow> json \<Rightarrow> string list \<times> error option" where
  "notebook_writes ipynb_path nb cells =
     (let w1 = ''Notebook: '' @ basename ipynb_path @ [CHR 0x0A] in
      case py_get nb ''metadata'' (JObj []) of
        Inl e \<Rightarrow> ([w1], Some e)
      | Inr md \<Rightarrow>
     (case py_get md ''kernelspec'' (JObj []) of
        Inl e \<Rightarrow> ([w1], Some e)
      | Inr ks \<Rightarrow>
          let w2 = ''Kernelspec: '' @ py_str ks @ [CHR 0x0A] in
          (case py_iter cells of
             Inl e \<Rightarrow> ([w1, w2, CELL_SEPARATOR], Some e)
           | Inr items \<Rightarrow>
               (case cells_loop 1 items of
                  (ws, r) \<Rightarrow> (w1 # w2 # CELL_SEPARATOR # ws, r)))))"

section \<open>Files and directories\<close>

text \<open>
  The part of the file system the program touches. Paths are the strings the program
  passes to the operating system. \<open>files\<close> are the regular files with their text and
  \<open>dirs\<close> the directories with the names \<^verbatim>\<open>os.listdir\<close> reports. An operation fails
  where the structure of the file system makes it fail: reading a path that is no regular
  file, writing to a path that is a directory or into a directory that does not exist,
  creating a directory where a regular file stands. The names \<^verbatim>\<open>os.listdir\<close> reports are those at the start of the run.
\<close>

record world =
  files :: "(string \<times> string) list"
  dirs :: "(string \<times> string list) list"

definition isfile :: "world \<Rightarrow> string \<Rightarrow> bool" where
  "isfile w p = (map_of (files w) p \<noteq> None)"

definition isdir :: "world \<Rightarrow> string \<Rightarrow> bool" where
  "isdir w p = (map_of (dirs w) p \<noteq> None)"

definition exists_path :: "world \<Rightarrow> string \<Rightarrow> bool" where
  "exists_path w p = (isfile w p \<or> isdir w p)"

definition listdir :: "world \<Rightarrow> string \<Rightarrow> string list" where
  "listdir w p = (case map_of (dirs w) p of None \<Rightarrow> [] | Some names \<Rightarrow> names)"

text \<open>
  The message of an \<^verbatim>\<open>OSError\<close> with a file name: the error number, its text, and the
  \<^verbatim>\<open>repr\<close> of the name.
\<close>

definition os_error :: "nat \<Rightarrow> string \<Rightarrow> string \<Rightarrow> error" where
  "os_error n what name = OSError (''[Errno '' @ str_nat n @ ''] '' @ what @ '': '' @ repr_str name)"

text \<open>
  The paths leading to a path: its proper prefixes that end before a \<^verbatim>\<open>/\<close>. A path
  without the \<^verbatim>\<open>/\<close> at its end. And the directory a path lies in, as \<^verbatim>\<open>posixpath.dirname\<close>
  gives it: the empty string is the current directory, a string of \<^verbatim>\<open>/\<close> the root.
\<close>

definition ancestors :: "string \<Rightarrow> string list" where
  "ancestors d = map (\<lambda>i. take i d) (filter (\<lambda>i. d ! i = CHR ''/'') [1..<length d])"

definition strip_slashes :: "string \<Rightarrow> string" where
  "strip_slashes d =
     (if list_all (\<lambda>c. c = CHR ''/'') d then d
      else rev (dropWhile (\<lambda>c. c = CHR ''/'') (rev d)))"

definition dirname :: "string \<Rightarrow> string" where
  "dirname p = strip_slashes (take (length p - length (basename p)) p)"

text \<open>
  \<^verbatim>\<open>io.open(p, "r")\<close> and reading the whole file. It fails on a directory, below a regular
  file, and on a path that does not exist.
\<close>

definition open_read :: "world \<Rightarrow> string \<Rightarrow> error + string" where
  "open_read w p =
     (case map_of (files w) p of
        Some s \<Rightarrow> Inr s
      | None \<Rightarrow>
          if isdir w (strip_slashes p) then Inl (os_error 21 ''Is a directory'' p)
          else if list_ex (isfile w) (ancestors p) then Inl (os_error 20 ''Not a directory'' p)
          else Inl (os_error 2 ''No such file or directory'' p))"

text \<open>
  \<^verbatim>\<open>io.open(p, "w")\<close>: the file is created, or emptied when it exists. It fails when \<open>p\<close>
  is a directory, when a path leading to \<open>p\<close> is a regular file, and when the directory
  \<open>p\<close> lies in does not exist. \<open>put_file\<close> sets the text of a file.
\<close>

definition put_file :: "world \<Rightarrow> string \<Rightarrow> string \<Rightarrow> world" where
  "put_file w p s = w\<lparr>files := (p, s) # filter (\<lambda>kv. fst kv \<noteq> p) (files w)\<rparr>"

definition open_write :: "world \<Rightarrow> string \<Rightarrow> error + world" where
  "open_write w p =
     (if basename p = [] \<or> isdir w p then Inl (os_error 21 ''Is a directory'' p)
      else if list_ex (isfile w) (ancestors p) then Inl (os_error 20 ''Not a directory'' p)
      else if \<not> (list_all (\<lambda>c. c = CHR ''/'') (dirname p) \<or> isdir w (dirname p))
        then Inl (os_error 2 ''No such file or directory'' p)
      else Inr (put_file w p []))"

text \<open>
  \<^verbatim>\<open>os.makedirs(d, exist_ok=True)\<close>: nothing to do when \<open>d\<close> is a directory; an error
  when \<open>d\<close> or one of the paths leading to it is a regular file; otherwise \<open>d\<close> and the
  missing directories leading to it are created, empty. Below a regular file the error
  names the first path that cannot be created.
\<close>

fun first_below :: "world \<Rightarrow> string list \<Rightarrow> string option" where
  "first_below w (a # b # rest) = (if isfile w a then Some b else first_below w (b # rest))"
| "first_below w _ = None"

definition makedirs :: "world \<Rightarrow> string \<Rightarrow> error + world" where
  "makedirs w d =
     (if isdir w d then Inr w
      else case first_below w (ancestors (strip_slashes d) @ [strip_slashes d]) of
             Some x \<Rightarrow> Inl (os_error 20 ''Not a directory'' x)
           | None \<Rightarrow>
               if isfile w (strip_slashes d) then Inl (os_error 17 ''File exists'' d)
               else Inr (w\<lparr>dirs := map (\<lambda>p. (p, []))
                                       (filter (\<lambda>p. \<not> isdir w p) (ancestors d @ [d]))
                                     @ dirs w\<rparr>))"

text \<open>
  What the program takes from outside its own text: \<^verbatim>\<open>json.load\<close> on the text of a file,
  with the exception it raises on a text that is no JSON, and the directory of the script.
\<close>

record env =
  json_load :: "string \<Rightarrow> error + json"
  script_dir :: string

text \<open>
  \<^verbatim>\<open>convert_notebook\<close>. The input is read and \<^verbatim>\<open>cells\<close> is computed before the output is
  opened. Once it is open, what was written before an exception stays in the file: the
  \<^verbatim>\<open>with\<close> block closes the file on the way out.
\<close>

definition convert_notebook :: "env \<Rightarrow> world \<Rightarrow> string \<Rightarrow> string \<Rightarrow> world \<times> (error + unit)" where
  "convert_notebook ev w ipynb_path txt_path =
     (case open_read w ipynb_path of
        Inl e \<Rightarrow> (w, Inl e)
      | Inr s \<Rightarrow>
     (case json_load ev s of
        Inl e \<Rightarrow> (w, Inl e)
      | Inr nb \<Rightarrow>
     (case py_get nb ''cells'' (JArr []) of
        Inl e \<Rightarrow> (w, Inl e)
      | Inr c \<Rightarrow>
          let cells = py_or c (JArr []) in
          (case open_write w txt_path of
             Inl e \<Rightarrow> (w, Inl e)
           | Inr w1 \<Rightarrow>
               (case notebook_writes ipynb_path nb cells of
                  (ws, r) \<Rightarrow>
                    (put_file w1 txt_path (concat ws),
                     case r of None \<Rightarrow> Inr () | Some e \<Rightarrow> Inl e))))))"

section \<open>Discovery and the command line\<close>

text \<open>\<^verbatim>\<open>str.lower\<close> on the code points below U+0100, and \<^verbatim>\<open>str.endswith\<close>.\<close>

definition lower_char :: "char \<Rightarrow> char" where
  "lower_char c =
     (let n = (of_char c :: nat)
      in if (65 \<le> n \<and> n \<le> 90) \<or> (192 \<le> n \<and> n \<le> 222 \<and> n \<noteq> 215) then char_of (n + 32) else c)"

definition lower :: "string \<Rightarrow> string" where
  "lower s = map lower_char s"

definition endswith :: "string \<Rightarrow> string \<Rightarrow> bool" where
  "endswith s suf = (length suf \<le> length s \<and> drop (length s - length suf) s = suf)"

definition find_ipynb_files :: "world \<Rightarrow> string \<Rightarrow> string list" where
  "find_ipynb_files w p =
     (if isfile w p then (if endswith (lower p) ''.ipynb'' then [p] else [])
      else if isdir w p then
        map (path_join p) (filter (\<lambda>name. endswith (lower name) ''.ipynb'') (sort (listdir w p)))
      else [])"

text \<open>The parsed command line: \<^verbatim>\<open>args.path\<close>, \<^verbatim>\<open>args.outdir\<close>, \<^verbatim>\<open>args.overwrite\<close>.\<close>

record args =
  path :: string
  outdir :: "string option"
  overwrite :: bool

text \<open>
  The loop of lines 129 to 143. The result is the file system afterwards, the lines
  printed, and either the exception that left the loop or the value \<^verbatim>\<open>main\<close> returns
  after it. \<^verbatim>\<open>os.makedirs\<close> stands outside the \<^verbatim>\<open>try\<close>.
\<close>

fun files_loop :: "env \<Rightarrow> string \<Rightarrow> bool \<Rightarrow> world \<Rightarrow> string list
    \<Rightarrow> world \<times> string list \<times> (error + int)" where
  "files_loop ev target_dir ow w [] = (w, [], Inr 0)"
| "files_loop ev target_dir ow w (ipynb # rest) =
     (let base = fst (splitext (basename ipynb)) in
      case makedirs w target_dir of
        Inl e \<Rightarrow> (w, [], Inl e)
      | Inr w1 \<Rightarrow>
          let txt_path = path_join target_dir (base @ ''.txt'') in
          if exists_path w1 txt_path \<and> \<not> ow then
            (case files_loop ev target_dir ow w1 rest of
               (w', out, r) \<Rightarrow>
                 ((w', (''Skipping existing file (use --overwrite to replace): '' @ txt_path) # out, r)))
          else
            (case convert_notebook ev w1 ipynb txt_path of
               (w2, Inr u) \<Rightarrow>
                 (case files_loop ev target_dir ow w2 rest of
                    (w', out, r) \<Rightarrow>
                      (w', (''Converted: '' @ ipynb @ '' -> '' @ txt_path) # out, r))
             | (w2, Inl e) \<Rightarrow>
                 (case files_loop ev target_dir ow w2 rest of
                    (w', out, r) \<Rightarrow>
                      (w', (''Failed to convert '' @ ipynb @ '': '' @ exc_str e) # out, r))))"

text \<open>\<^verbatim>\<open>main\<close>, after \<^verbatim>\<open>parse_args\<close>.\<close>

definition main :: "env \<Rightarrow> world \<Rightarrow> args \<Rightarrow> world \<times> string list \<times> (error + int)" where
  "main ev w a =
     (let paths = find_ipynb_files w (path a) in
      if paths = [] then (w, [''No .ipynb files found at: '' @ path a], Inr 2)
      else
        let out_dir = (case outdir a of
                         None \<Rightarrow> script_dir ev
                       | Some d \<Rightarrow> if d \<noteq> [] then d else script_dir ev)
        in files_loop ev out_dir (overwrite a) w paths)"

text \<open>
  \<^verbatim>\<open>raise SystemExit(main())\<close>: the value returned is the exit status, and an exception
  that leaves \<^verbatim>\<open>main\<close> ends the interpreter with status 1.
\<close>

definition exit_status :: "error + int \<Rightarrow> int" where
  "exit_status r = (case r of Inl e \<Rightarrow> 1 | Inr n \<Rightarrow> n)"

section \<open>Notebook documents\<close>

text \<open>
  The documents the specification describes. A notebook is a dictionary with an optional
  \<^verbatim>\<open>metadata\<close> dictionary and an optional list \<^verbatim>\<open>cells\<close>; a cell is a dictionary with an
  optional \<^verbatim>\<open>source\<close> and, when it is a code cell, an optional list \<^verbatim>\<open>outputs\<close>; an output
  is a dictionary with an optional \<^verbatim>\<open>text\<close>, an optional \<^verbatim>\<open>data\<close> and, when it is an error
  output, an optional list \<^verbatim>\<open>traceback\<close> of strings. \<^verbatim>\<open>source\<close>, \<^verbatim>\<open>text\<close> and the
  \<^verbatim>\<open>text/plain\<close> entry of a \<^verbatim>\<open>data\<close> dictionary are text fragments: a list of strings, or
  one string. An optional field may be absent or \<^verbatim>\<open>null\<close>. \<^verbatim>\<open>cell_type\<close>, \<^verbatim>\<open>output_type\<close>,
  the \<^verbatim>\<open>kernelspec\<close> and a \<^verbatim>\<open>data\<close> that is no dictionary are not constrained.
\<close>

definition field :: "(string \<times> json) list \<Rightarrow> string \<Rightarrow> json" where
  "field kvs k = (case map_of kvs k of None \<Rightarrow> JNull | Some v \<Rightarrow> v)"

definition present :: "json \<Rightarrow> bool" where
  "present v = (v \<noteq> JNull)"

definition fragments :: "json \<Rightarrow> bool" where
  "fragments v = (case v of JArr xs \<Rightarrow> list_all is_str xs | JStr s \<Rightarrow> True | _ \<Rightarrow> False)"

definition concat_fragments :: "json \<Rightarrow> string" where
  "concat_fragments v = (case v of JArr xs \<Rightarrow> concat (map str_of xs) | JStr s \<Rightarrow> s | _ \<Rightarrow> [])"

definition items :: "json \<Rightarrow> json list" where
  "items v = (case v of JArr xs \<Rightarrow> xs | _ \<Rightarrow> [])"

definition entries :: "json \<Rightarrow> (string \<times> json) list" where
  "entries v = (case v of JObj kvs \<Rightarrow> kvs | _ \<Rightarrow> [])"

fun is_mapping :: "json \<Rightarrow> bool" where
  "is_mapping (JObj kvs) = True"
| "is_mapping _ = False"

definition string_list :: "json \<Rightarrow> bool" where
  "string_list v = (case v of JArr xs \<Rightarrow> list_all is_str xs | _ \<Rightarrow> False)"

definition wf_output :: "json \<Rightarrow> bool" where
  "wf_output out =
     (case out of
        JObj kvs \<Rightarrow>
          (\<not> present (field kvs ''text'') \<or> fragments (field kvs ''text'')) \<and>
          (case field kvs ''data'' of
             JObj d \<Rightarrow> (case map_of d ''text/plain'' of None \<Rightarrow> True | Some v \<Rightarrow> fragments v)
           | _ \<Rightarrow> True) \<and>
          (map_of kvs ''output_type'' \<noteq> Some (JStr ''error'') \<or>
           \<not> present (field kvs ''traceback'') \<or> string_list (field kvs ''traceback''))
      | _ \<Rightarrow> False)"

definition output_list :: "json \<Rightarrow> bool" where
  "output_list v = (case v of JArr outs \<Rightarrow> list_all wf_output outs | _ \<Rightarrow> False)"

definition wf_cell :: "json \<Rightarrow> bool" where
  "wf_cell cell =
     (case cell of
        JObj kvs \<Rightarrow>
          (\<not> present (field kvs ''source'') \<or> fragments (field kvs ''source'')) \<and>
          (map_of kvs ''cell_type'' \<noteq> Some (JStr ''code'') \<or>
           \<not> present (field kvs ''outputs'') \<or> output_list (field kvs ''outputs''))
      | _ \<Rightarrow> False)"

definition cell_list :: "json \<Rightarrow> bool" where
  "cell_list v = (case v of JArr cs \<Rightarrow> list_all wf_cell cs | _ \<Rightarrow> False)"

definition wf_notebook :: "json \<Rightarrow> bool" where
  "wf_notebook nb =
     (case nb of
        JObj kvs \<Rightarrow>
          (\<not> present (field kvs ''cells'') \<or> cell_list (field kvs ''cells'')) \<and>
          (case map_of kvs ''metadata'' of None \<Rightarrow> True | Some (JObj md) \<Rightarrow> True | Some _ \<Rightarrow> False)
      | _ \<Rightarrow> False)"

text \<open>The cells of a notebook, and the value its kernelspec line renders.\<close>

definition nb_cells :: "json \<Rightarrow> json list" where
  "nb_cells nb = items (field (entries nb) ''cells'')"

definition nb_kernelspec :: "json \<Rightarrow> json" where
  "nb_kernelspec nb =
     (case map_of (entries nb) ''metadata'' of
        None \<Rightarrow> JObj []
      | Some md \<Rightarrow> (case map_of (entries md) ''kernelspec'' of None \<Rightarrow> JObj [] | Some ks \<Rightarrow> ks))"

section \<open>The rendering as the specification words it\<close>

text \<open>
  The lines of the output with index \<open>i\<close>, after section 4.1 of the specification: the
  index line, the trimmed \<^verbatim>\<open>text\<close> when \<open>has_text\<close> holds of it, the trimmed
  \<^verbatim>\<open>text/plain\<close> entry of a \<^verbatim>\<open>data\<close> dictionary, and the trimmed traceback lines of an error
  output. With \<open>has_text = present\<close> these are the specification's words (``if \<^verbatim>\<open>text\<close> is
  present''); with \<open>has_text = truthy\<close> an empty \<^verbatim>\<open>text\<close> gives no line either.
\<close>

definition spec_output_type :: "json \<Rightarrow> json" where
  "spec_output_type out =
     (case map_of (entries out) ''output_type'' of None \<Rightarrow> JStr ''output'' | Some t \<Rightarrow> t)"

definition spec_output_lines :: "(json \<Rightarrow> bool) \<Rightarrow> nat \<Rightarrow> json \<Rightarrow> string list" where
  "spec_output_lines has_text i out =
     (''['' @ str_nat i @ ''] output_type: '' @ py_str (spec_output_type out))
     # (if has_text (field (entries out) ''text'')
        then [rstrip (concat_fragments (field (entries out) ''text''))] else [])
     @ (case map_of (entries (field (entries out) ''data'')) ''text/plain'' of
          None \<Rightarrow> []
        | Some v \<Rightarrow> [rstrip (concat_fragments v)])
     @ (if spec_output_type out = JStr ''error''
        then map (\<lambda>l. rstrip (str_of l)) (items (field (entries out) ''traceback'')) else [])"

definition spec_cell_type :: "json \<Rightarrow> json" where
  "spec_cell_type cell =
     (case map_of (entries cell) ''cell_type'' of None \<Rightarrow> JStr ''unknown'' | Some t \<Rightarrow> t)"

text \<open>The block of a code cell: type line, label, source, and the outputs section.\<close>

definition spec_code_block :: "(json \<Rightarrow> bool) \<Rightarrow> json \<Rightarrow> string" where
  "spec_code_block has_text cell =
     (let outs = items (field (entries cell) ''outputs'')
      in join_lines
           ([''Cell type: code'', ''-- Code --'',
             rstrip (concat_fragments (field (entries cell) ''source''))]
            @ (if outs = [] then []
               else [join_lines
                       (''-- Outputs --''
                        # concat (map (\<lambda>(i, out). spec_output_lines has_text i out)
                                     (zip [1..<Suc (length outs)] outs)))])))"

text \<open>
  The text of a document, after section 4.2 and the output format of section 6: the name
  line, the kernelspec line and the separator, then for each block, counted from 1, the
  line \<^verbatim>\<open>Cell N\<close>, the block and the separator.
\<close>

definition spec_document :: "string \<Rightarrow> json \<Rightarrow> string list \<Rightarrow> string" where
  "spec_document name kernelspec blocks =
     ''Notebook: '' @ name @ [CHR 0x0A]
     @ ''Kernelspec: '' @ py_str kernelspec @ [CHR 0x0A]
     @ CELL_SEPARATOR
     @ concat (map (\<lambda>(i, block). ''Cell '' @ str_nat i @ [CHR 0x0A] @ block @ CELL_SEPARATOR)
                   (zip [1..<Suc (length blocks)] blocks))"





section \<open>Example inputs\<close>

text \<open>
  A notebook with a kernelspec, a markdown cell and a code cell with one output; a
  directory \<^verbatim>\<open>nb\<close> holding it as \<^verbatim>\<open>a.ipynb\<close> and as \<^verbatim>\<open>c.ipynb\<close>, beside a file \<^verbatim>\<open>b.ipynb\<close>
  that is no JSON and a file that is no notebook, and an empty directory \<^verbatim>\<open>out\<close>; and a \<^verbatim>\<open>json.load\<close> that reads the text of \<^verbatim>\<open>a.ipynb\<close>
  (here the one-letter text \<^verbatim>\<open>A\<close>) as that notebook and fails on every other text.
\<close>

definition example_notebook :: json where
  "example_notebook =
     JObj [(''metadata'',
            JObj [(''kernelspec'',
                   JObj [(''display_name'', JStr ''Python 3''), (''name'', JStr ''python3'')])]),
           (''cells'',
            JArr [JObj [(''cell_type'', JStr ''markdown''),
                        (''source'', JArr [JStr ''# Title\<newline>'', JStr ''body''])],
                  JObj [(''cell_type'', JStr ''code''),
                        (''source'', JArr [JStr ''print(1)'']),
                        (''outputs'',
                         JArr [JObj [(''output_type'', JStr ''stream''),
                                     (''text'', JArr [JStr ''1\<newline>''])]])]])]"

definition example_env :: env where
  "example_env =
     \<lparr>json_load = (\<lambda>s. if s = ''A'' then Inr example_notebook
                       else Inl (ValueError ''Expecting value: line 1 column 1 (char 0)'')),
      script_dir = ''/opt/tools''\<rparr>"

definition example_world :: world where
  "example_world =
     \<lparr>files = [(''nb/a.ipynb'', ''A''), (''nb/b.ipynb'', ''not json''), (''nb/c.ipynb'', ''A''),
               (''nb/notes.txt'', ''x'')],
      dirs = [(''nb'', [''c.ipynb'', ''b.ipynb'', ''notes.txt'', ''a.ipynb'']), (''out'', [])]\<rparr>"




text \<open>The command line \<^verbatim>\<open>nb -o out\<close>.\<close>

definition example_args :: args where
  "example_args = \<lparr>path = ''nb'', outdir = Some ''out'', overwrite = False\<rparr>"

section \<open>What the cell renderer returns on well-formed cells\<close>

subsection \<open>Fragments, optional fields and the three parts of an output\<close>

lemma first_non_str_None: "list_all is_str xs \<Longrightarrow> first_non_str i xs = None"
  by (induction xs arbitrary: i) simp_all

lemma join_empty_fragments: "fragments v \<Longrightarrow> join_empty v = Inr (concat_fragments v)"
  by (cases v)
     (simp_all add: fragments_def join_empty_def concat_fragments_def first_non_str_None
        list_all_iff comp_def)

lemma falsy_fragments: "\<not> truthy v \<Longrightarrow> \<not> present v \<or> fragments v \<Longrightarrow> concat_fragments v = []"
  by (cases v) (simp_all add: present_def fragments_def concat_fragments_def)

lemma join_empty_Nil: "join_empty (JArr []) = Inr []"
  by (simp add: join_empty_def)

lemma truthy_present: "truthy v \<Longrightarrow> present v"
  by (cases v) (simp_all add: present_def)

lemma opt_join:
  assumes "\<not> present v \<or> fragments v"
  shows "join_empty (py_or v (JArr [])) = Inr (concat_fragments v)"
proof (cases "truthy v")
  case True
  with assms have "fragments v" using truthy_present by blast
  with True show ?thesis by (simp add: py_or_def join_empty_fragments)
next
  case False
  with assms show ?thesis by (simp add: py_or_def join_empty_Nil falsy_fragments)
qed

lemma py_get_null: "py_get (JObj kvs) k JNull = Inr (field kvs k)"
  by (simp add: field_def)

lemma py_or_default: 
  "\<not> truthy d \<Longrightarrow> py_or (case map_of kvs k of None \<Rightarrow> d | Some v \<Rightarrow> v) d = py_or (field kvs k) d"
  by (cases "map_of kvs k") (simp_all add: field_def py_or_def)

lemma source_join:
  assumes "\<not> present (field kvs k) \<or> fragments (field kvs k)"
  shows "join_empty (py_or (case map_of kvs k of None \<Rightarrow> JArr [] | Some v \<Rightarrow> v) (JArr []))
           = Inr (concat_fragments (field kvs k))"
  using assms by (simp add: py_or_default opt_join)

lemma text_lines_wf:
  assumes "\<not> present (field kvs ''text'') \<or> fragments (field kvs ''text'')"
  shows "text_lines (JObj kvs) =
     Inr (if truthy (field kvs ''text'') then [rstrip (concat_fragments (field kvs ''text''))] else [])"
proof (cases "truthy (field kvs ''text'')")
  case True
  with assms have "fragments (field kvs ''text'')" using truthy_present by blast
  with True show ?thesis by (simp add: text_lines_def py_get_null join_empty_fragments del: py_get.simps)
next
  case False
  then show ?thesis by (simp add: text_lines_def py_get_null del: py_get.simps)
qed

lemma data_lines_wf:
  assumes "case field kvs ''data'' of
             JObj d \<Rightarrow> (case map_of d ''text/plain'' of None \<Rightarrow> True | Some v \<Rightarrow> fragments v)
           | _ \<Rightarrow> True"
  shows "data_lines (JObj kvs) =
     Inr (case map_of (entries (field kvs ''data'')) ''text/plain'' of
          None \<Rightarrow> []
        | Some v \<Rightarrow> [rstrip (concat_fragments v)])"
  using assms
  by (cases "field kvs ''data''")
     (auto simp add: data_lines_def py_get_null py_or_def entries_def join_empty_fragments
           simp del: py_get.simps split: option.splits)

lemma py_iter_string_list:
  "\<not> present v \<or> string_list v \<Longrightarrow> py_iter (py_or v (JArr [])) = Inr (items v)"
  by (cases v) (auto simp add: present_def string_list_def py_or_def items_def)

lemma traceback_lines_wf:
  assumes "map_of kvs ''output_type'' \<noteq> Some (JStr ''error'') \<or>
           \<not> present (field kvs ''traceback'') \<or> string_list (field kvs ''traceback'')"
  shows "traceback_lines (spec_output_type (JObj kvs)) (JObj kvs) =
     Inr (if spec_output_type (JObj kvs) = JStr ''error''
        then map (\<lambda>l. rstrip (str_of l)) (items (field kvs ''traceback'')) else [])"
proof (cases "spec_output_type (JObj kvs) = JStr ''error''")
  case True
  then have "map_of kvs ''output_type'' = Some (JStr ''error'')"
    by (simp add: spec_output_type_def entries_def split: option.splits)
  with assms have t: "\<not> present (field kvs ''traceback'') \<or> string_list (field kvs ''traceback'')"
    by simp
  then have "list_all is_str (items (field kvs ''traceback''))"
    by (cases "field kvs ''traceback''") (auto simp: present_def string_list_def items_def)
  then have "first_non_str 0 (items (field kvs ''traceback'')) = None"
    by (rule first_non_str_None)
  with True t show ?thesis
    by (simp add: traceback_lines_def py_get_null py_iter_string_list del: py_get.simps)
next
  case False
  then show ?thesis by (simp add: traceback_lines_def)
qed

lemma py_get_output_type:
  "py_get (JObj kvs) ''output_type'' (JStr ''output'') = Inr (spec_output_type (JObj kvs))"
  by (simp add: spec_output_type_def entries_def)

lemma output_lines_wf:
  assumes "wf_output out"
  shows "output_lines i out = Inr (spec_output_lines truthy i out)"
proof -
  from assms obtain kvs where out: "out = JObj kvs"
    by (cases out) (simp_all add: wf_output_def)
  from assms have a: "\<not> present (field kvs ''text'') \<or> fragments (field kvs ''text'')"
    and b: "case field kvs ''data'' of
             JObj d \<Rightarrow> (case map_of d ''text/plain'' of None \<Rightarrow> True | Some v \<Rightarrow> fragments v)
           | _ \<Rightarrow> True"
    and c: "map_of kvs ''output_type'' \<noteq> Some (JStr ''error'') \<or>
           \<not> present (field kvs ''traceback'') \<or> string_list (field kvs ''traceback'')"
    by (simp_all add: wf_output_def out)
  show ?thesis
    unfolding out output_lines_def py_get_output_type
    by (simp add: text_lines_wf [OF a] data_lines_wf [OF b] traceback_lines_wf [OF c]
          spec_output_lines_def entries_def)
qed

lemma outputs_loop_wf:
  "list_all wf_output outs \<Longrightarrow>
   outputs_loop i outs =
     Inr (concat (map (\<lambda>(i, out). spec_output_lines truthy i out) (zip [i..<i + length outs] outs)))"
proof (induction outs arbitrary: i)
  case Nil
  then show ?case by simp
next
  case (Cons out outs)
  have "[i..<i + length (out # outs)] = i # [Suc i..<i + length (out # outs)]"
    by (rule upt_conv_Cons) simp
  then have "[i..<i + length (out # outs)] = i # [Suc i..<Suc i + length outs]"
    by simp
  with Cons show ?case by (simp add: output_lines_wf del: upt_Suc)
qed

lemma outputs_loop_wf1:
  "list_all wf_output outs \<Longrightarrow>
   outputs_loop (Suc 0) outs =
     Inr (concat (map (\<lambda>(i, out). spec_output_lines truthy i out) (zip [Suc 0..<Suc (length outs)] outs)))"
  using outputs_loop_wf [of outs "Suc 0"] by simp

lemma outputs_value:
  "\<not> present (field kvs ''outputs'') \<or> output_list (field kvs ''outputs'') \<Longrightarrow>
   py_or (case map_of kvs ''outputs'' of None \<Rightarrow> JArr [] | Some v \<Rightarrow> v) (JArr [])
     = JArr (items (field kvs ''outputs''))"
  by (cases "map_of kvs ''outputs''"; cases "field kvs ''outputs''")
     (auto simp add: field_def present_def output_list_def py_or_def items_def)

lemma outputs_all_wf:
  "\<not> present (field kvs ''outputs'') \<or> output_list (field kvs ''outputs'') \<Longrightarrow>
   list_all wf_output (items (field kvs ''outputs''))"
  by (cases "field kvs ''outputs''") (auto simp add: present_def output_list_def items_def)

lemma extract_code_cell:
  assumes "wf_cell cell" and "map_of (entries cell) ''cell_type'' = Some (JStr ''code'')"
  shows "extract_text_from_cell cell = Inr (spec_code_block truthy cell)"
proof -
  from assms(1) obtain kvs where cell: "cell = JObj kvs"
    by (cases cell) (simp_all add: wf_cell_def)
  from assms have ct: "map_of kvs ''cell_type'' = Some (JStr ''code'')"
    by (simp add: cell entries_def)
  from assms(1) have src: "\<not> present (field kvs ''source'') \<or> fragments (field kvs ''source'')"
    by (simp add: wf_cell_def cell)
  from assms(1) ct have outs: "\<not> present (field kvs ''outputs'') \<or> output_list (field kvs ''outputs'')"
    by (simp add: wf_cell_def cell)
  show ?thesis
    unfolding cell extract_text_from_cell_def
    by (simp add: ct source_join [OF src] outputs_value [OF outs]
          outputs_loop_wf1 [OF outputs_all_wf [OF outs]]
          spec_code_block_def entries_def Let_def del: upt_Suc)
qed

lemma wf_output_obj: "wf_output out \<Longrightarrow> out = JObj (entries out)"
  by (cases out) (simp_all add: wf_output_def entries_def)

lemma wf_cell_obj: "wf_cell cell \<Longrightarrow> cell = JObj (entries cell)"
  by (cases cell) (simp_all add: wf_cell_def entries_def)

lemma text_lines_out:
  "wf_output out \<Longrightarrow>
   text_lines out =
     Inr (if truthy (field (entries out) ''text'')
          then [rstrip (concat_fragments (field (entries out) ''text''))] else [])"
  by (cases out) (simp_all add: wf_output_def entries_def text_lines_wf del: py_get.simps)

lemma data_lines_out:
  "wf_output out \<Longrightarrow>
   data_lines out =
     Inr (case map_of (entries (field (entries out) ''data'')) ''text/plain'' of
            None \<Rightarrow> []
          | Some v \<Rightarrow> [rstrip (concat_fragments v)])"
  by (cases out) (simp_all add: wf_output_def entries_def data_lines_wf del: py_get.simps)

lemma traceback_lines_out:
  "wf_output out \<Longrightarrow>
   traceback_lines (spec_output_type out) out =
     Inr (if spec_output_type out = JStr ''error''
          then map (\<lambda>l. rstrip (str_of l)) (items (field (entries out) ''traceback'')) else [])"
  using traceback_lines_wf [of "entries out"] wf_output_obj [of out]
  by (cases out) (simp_all add: wf_output_def entries_def)

lemma extract_other_cell:
  assumes "wf_cell cell"
    and "spec_cell_type cell \<noteq> JStr ''markdown''" and "spec_cell_type cell \<noteq> JStr ''code''"
  shows "extract_text_from_cell cell =
           Inr (join_lines [''Cell type: '' @ py_str (spec_cell_type cell),
                            rstrip (concat_fragments (field (entries cell) ''source''))])"
proof -
  from assms(1) obtain kvs where cell: "cell = JObj kvs"
    by (cases cell) (simp_all add: wf_cell_def)
  from assms(1) have src: "\<not> present (field kvs ''source'') \<or> fragments (field kvs ''source'')"
    by (simp add: wf_cell_def cell)
  from assms(2,3) show ?thesis
    unfolding cell extract_text_from_cell_def
    by (simp add: source_join [OF src] entries_def spec_cell_type_def)
qed

lemma extract_markdown_cell:
  assumes "wf_cell cell" and "map_of (entries cell) ''cell_type'' = Some (JStr ''markdown'')"
  shows "extract_text_from_cell cell =
           Inr (join_lines [''Cell type: markdown'', ''-- Markdown --'',
                            rstrip (concat_fragments (field (entries cell) ''source''))])"
proof -
  from assms(1) obtain kvs where cell: "cell = JObj kvs"
    by (cases cell) (simp_all add: wf_cell_def)
  from assms have ct: "map_of kvs ''cell_type'' = Some (JStr ''markdown'')"
    by (simp add: cell entries_def)
  from assms(1) have src: "\<not> present (field kvs ''source'') \<or> fragments (field kvs ''source'')"
    by (simp add: wf_cell_def cell)
  show ?thesis
    unfolding cell extract_text_from_cell_def
    by (simp add: ct source_join [OF src] entries_def)
qed

lemma spec_cell_type_eq:
  "t \<noteq> JStr ''unknown'' \<Longrightarrow>
   spec_cell_type cell = t \<longleftrightarrow> map_of (entries cell) ''cell_type'' = Some t"
  by (auto simp: spec_cell_type_def split: option.splits)

lemma extract_total:
  assumes "wf_cell cell"
  shows "\<exists>block. extract_text_from_cell cell = Inr block"
proof -
  consider (md) "spec_cell_type cell = JStr ''markdown''"
    | (code) "spec_cell_type cell = JStr ''code''"
    | (other) "spec_cell_type cell \<noteq> JStr ''markdown''" "spec_cell_type cell \<noteq> JStr ''code''"
    by blast
  then show ?thesis
  proof cases
    case md
    then have "map_of (entries cell) ''cell_type'' = Some (JStr ''markdown'')"
      by (simp add: spec_cell_type_eq)
    from extract_markdown_cell [OF assms this] show ?thesis by blast
  next
    case code
    then have "map_of (entries cell) ''cell_type'' = Some (JStr ''code'')"
      by (simp add: spec_cell_type_eq)
    from extract_code_cell [OF assms this] show ?thesis by blast
  next
    case other
    from extract_other_cell [OF assms other] show ?thesis by blast
  qed
qed

subsection \<open>Markdown cells\<close>

text \<open>
  Claim C5. For every cell with \<^verbatim>\<open>cell_type\<close> \<^verbatim>\<open>markdown\<close>, the rendered block is exactly the
  line \<^verbatim>\<open>Cell type: markdown\<close>, then the label line \<^verbatim>\<open>-- Markdown --\<close>, then the
  concatenation of the source fragments with trailing white space removed. The witness is
  the cell with source \<^verbatim>\<open>["# Title\n", "body"]\<close>: its block ends with \<^verbatim>\<open>body\<close>, with no
  blank line after it.
\<close>

theorem markdown_cell_block:
  assumes "wf_cell cell" and "map_of (entries cell) ''cell_type'' = Some (JStr ''markdown'')"
  shows "extract_text_from_cell cell =
           Inr (join_lines [''Cell type: markdown'', ''-- Markdown --'',
                            rstrip (concat_fragments (field (entries cell) ''source''))])"
  using assms by (rule extract_markdown_cell)

theorem markdown_cell_block_witness:
  "wf_cell (JObj [(''cell_type'', JStr ''markdown''),
                  (''source'', JArr [JStr ''# Title\<newline>'', JStr ''body''])]) \<and>
   map_of (entries (JObj [(''cell_type'', JStr ''markdown''),
                  (''source'', JArr [JStr ''# Title\<newline>'', JStr ''body''])])) ''cell_type''
     = Some (JStr ''markdown'') \<and>
   extract_text_from_cell
     (JObj [(''cell_type'', JStr ''markdown''),
            (''source'', JArr [JStr ''# Title\<newline>'', JStr ''body''])])
     = Inr ''Cell type: markdown\<newline>-- Markdown --\<newline># Title\<newline>body''"
proof -
  let ?c = "JObj [(''cell_type'', JStr ''markdown''),
                  (''source'', JArr [JStr ''# Title\<newline>'', JStr ''body''])]"
  have a: "wf_cell ?c" by code_simp
  have b: "map_of (entries ?c) ''cell_type'' = Some (JStr ''markdown'')" by code_simp
  have c: "join_lines [''Cell type: markdown'', ''-- Markdown --'',
                            rstrip (concat_fragments (field (entries ?c) ''source''))]
           = ''Cell type: markdown\<newline>-- Markdown --\<newline># Title\<newline>body''"
    by code_simp
  from markdown_cell_block [OF a b] c a b show ?thesis by simp
qed

subsection \<open>Code cells\<close>

text \<open>
  Claim C4, amended. For every cell with \<^verbatim>\<open>cell_type\<close> \<^verbatim>\<open>code\<close>, the rendered block is
  \<^verbatim>\<open>Cell type: code\<close>, the label \<^verbatim>\<open>-- Code --\<close> and the right-trimmed source; if and only
  if \<^verbatim>\<open>outputs\<close> is non-empty, an \<^verbatim>\<open>-- Outputs --\<close> section follows, holding for each output
  in order, counted from 1, its index line, then the trimmed \<^verbatim>\<open>text\<close> when it is present
  and not empty, then the trimmed \<^verbatim>\<open>text/plain\<close> entry of \<^verbatim>\<open>data\<close> when present, then the
  trimmed traceback lines of an error output. The witness is the cell of the claim, with
  source \<^verbatim>\<open>["print(1)"]\<close> and the one output \<^verbatim>\<open>{"output_type": "stream", "text": ["1\n"]}\<close>.
\<close>

theorem code_cell_block:
  assumes "wf_cell cell" and "map_of (entries cell) ''cell_type'' = Some (JStr ''code'')"
  shows "extract_text_from_cell cell = Inr (spec_code_block truthy cell)"
  using assms by (rule extract_code_cell)

theorem code_cell_block_witness:
  "wf_cell (JObj [(''cell_type'', JStr ''code''), (''source'', JArr [JStr ''print(1)'']),
                  (''outputs'', JArr [JObj [(''output_type'', JStr ''stream''),
                                            (''text'', JArr [JStr ''1\<newline>''])]])]) \<and>
   extract_text_from_cell
     (JObj [(''cell_type'', JStr ''code''), (''source'', JArr [JStr ''print(1)'']),
            (''outputs'', JArr [JObj [(''output_type'', JStr ''stream''),
                                      (''text'', JArr [JStr ''1\<newline>''])]])])
     = Inr ''Cell type: code\<newline>-- Code --\<newline>print(1)\<newline>-- Outputs --\<newline>[1] output_type: stream\<newline>1''"
proof -
  let ?c = "JObj [(''cell_type'', JStr ''code''), (''source'', JArr [JStr ''print(1)'']),
                  (''outputs'', JArr [JObj [(''output_type'', JStr ''stream''),
                                            (''text'', JArr [JStr ''1\<newline>''])]])]"
  have a: "wf_cell ?c" by code_simp
  have b: "map_of (entries ?c) ''cell_type'' = Some (JStr ''code'')" by code_simp
  have c: "spec_code_block truthy ?c
     = ''Cell type: code\<newline>-- Code --\<newline>print(1)\<newline>-- Outputs --\<newline>[1] output_type: stream\<newline>1''"
    by code_simp
  from code_cell_block [OF a b] have "extract_text_from_cell ?c = Inr (spec_code_block truthy ?c)" .
  with a c show ?thesis by simp
qed

text \<open>
  As the claim words it, a \<^verbatim>\<open>text\<close> that is present gives a line. An output whose \<^verbatim>\<open>text\<close>
  is the empty list gives none: line 53 tests \<^verbatim>\<open>if text:\<close>, and the block ends with the
  index line where the claim has one more, empty line.
\<close>

theorem code_cell_empty_text_counterexample:
  "wf_cell (JObj [(''cell_type'', JStr ''code''), (''source'', JArr [JStr ''print(1)'']),
                  (''outputs'', JArr [JObj [(''output_type'', JStr ''stream''),
                                            (''text'', JArr [])]])]) \<and>
   extract_text_from_cell
     (JObj [(''cell_type'', JStr ''code''), (''source'', JArr [JStr ''print(1)'']),
            (''outputs'', JArr [JObj [(''output_type'', JStr ''stream''), (''text'', JArr [])]])])
     = Inr ''Cell type: code\<newline>-- Code --\<newline>print(1)\<newline>-- Outputs --\<newline>[1] output_type: stream'' \<and>
   spec_code_block present
     (JObj [(''cell_type'', JStr ''code''), (''source'', JArr [JStr ''print(1)'']),
            (''outputs'', JArr [JObj [(''output_type'', JStr ''stream''), (''text'', JArr [])]])])
     = ''Cell type: code\<newline>-- Code --\<newline>print(1)\<newline>-- Outputs --\<newline>[1] output_type: stream\<newline>''"
  by code_simp


subsection \<open>The \<^verbatim>\<open>text\<close> of an output\<close>

text \<open>
  Claim C3, amended. For every code-cell output, the line holding the trimmed
  concatenation of the \<^verbatim>\<open>text\<close> fragments is emitted, right after the index line, when
  \<^verbatim>\<open>text\<close> is present and not empty; when \<^verbatim>\<open>text\<close> is absent, \<^verbatim>\<open>null\<close> or empty, the line
  is omitted.
\<close>

theorem text_line_when_nonempty:
  assumes "wf_output out"
  shows "text_lines out =
           Inr (if truthy (field (entries out) ''text'')
                then [rstrip (concat_fragments (field (entries out) ''text''))] else []) \<and>
         (\<exists>dls bls.
            data_lines out = Inr dls \<and>
            traceback_lines (spec_output_type out) out = Inr bls \<and>
            output_lines i out =
              Inr ((''['' @ str_nat i @ ''] output_type: '' @ py_str (spec_output_type out))
                   # (if truthy (field (entries out) ''text'')
                      then [rstrip (concat_fragments (field (entries out) ''text''))] else [])
                   @ dls @ bls))"
proof -
  note t = text_lines_out [OF assms]
  note d = data_lines_out [OF assms]
  note b = traceback_lines_out [OF assms]
  have "output_lines i out = Inr (spec_output_lines truthy i out)"
    by (rule output_lines_wf [OF assms])
  then show ?thesis
    unfolding t d b spec_output_lines_def by blast
qed

theorem text_line_when_nonempty_witness:
  "wf_output (JObj [(''output_type'', JStr ''stream''), (''text'', JArr [JStr ''1\<newline>''])]) \<and>
   text_lines (JObj [(''output_type'', JStr ''stream''), (''text'', JArr [JStr ''1\<newline>''])])
     = Inr [''1''] \<and>
   output_lines 1 (JObj [(''output_type'', JStr ''stream''), (''text'', JArr [JStr ''1\<newline>''])])
     = Inr [''[1] output_type: stream'', ''1'']"
proof -
  let ?o = "JObj [(''output_type'', JStr ''stream''), (''text'', JArr [JStr ''1\<newline>''])]"
  have a: "wf_output ?o" by code_simp
  have t: "(if truthy (field (entries ?o) ''text'')
            then [rstrip (concat_fragments (field (entries ?o) ''text''))] else []) = [''1'']"
    by code_simp
  have o: "output_lines 1 ?o = Inr [''[1] output_type: stream'', ''1'']"
    by code_simp
  from text_line_when_nonempty [OF a, of 1] have "text_lines ?o = Inr [''1'']"
    unfolding t by blast
  with a o show ?thesis by blast
qed

text \<open>
  The claim as stated counts the empty sequence as present. For the output
  \<^verbatim>\<open>{"output_type": "stream", "text": []}\<close> the field is present, and the lines of the
  output are the index line alone: the trimmed concatenation, the empty string, is not
  among them.
\<close>

theorem empty_text_counterexample:
  "wf_output (JObj [(''output_type'', JStr ''stream''), (''text'', JArr [])]) \<and>
   present (field (entries (JObj [(''output_type'', JStr ''stream''), (''text'', JArr [])])) ''text'') \<and>
   output_lines 1 (JObj [(''output_type'', JStr ''stream''), (''text'', JArr [])])
     = Inr [''[1] output_type: stream''] \<and>
   rstrip (concat_fragments
      (field (entries (JObj [(''output_type'', JStr ''stream''), (''text'', JArr [])])) ''text''))
     \<notin> set [''[1] output_type: stream'']"
  by code_simp

subsection \<open>Missing types\<close>



subsection \<open>A \<^verbatim>\<open>data\<close> that is no dictionary\<close>

text \<open>
  Claim C10. For every output of a code cell whose \<^verbatim>\<open>data\<close> field is present but is not a
  mapping, rendering the cell succeeds and no data line is emitted for that output: its
  lines are the index line, the \<^verbatim>\<open>text\<close> line and the traceback lines, as if the field
  were not there.
\<close>

theorem non_mapping_data_ignored:
  assumes "wf_cell cell" and "map_of (entries cell) ''cell_type'' = Some (JStr ''code'')"
    and "out \<in> set (items (field (entries cell) ''outputs''))"
    and "map_of (entries out) ''data'' = Some d" and "\<not> is_mapping d"
  shows "(\<exists>block. extract_text_from_cell cell = Inr block) \<and>
         data_lines out = Inr [] \<and>
         output_lines i out =
           Inr ((''['' @ str_nat i @ ''] output_type: '' @ py_str (spec_output_type out))
                # (if truthy (field (entries out) ''text'')
                   then [rstrip (concat_fragments (field (entries out) ''text''))] else [])
                @ (if spec_output_type out = JStr ''error''
                   then map (\<lambda>l. rstrip (str_of l)) (items (field (entries out) ''traceback''))
                   else []))"
proof -
  from assms(1) have kvs: "cell = JObj (entries cell)" by (rule wf_cell_obj)
  from assms(1,2) have "\<not> present (field (entries cell) ''outputs'') \<or>
      output_list (field (entries cell) ''outputs'')"
    by (cases cell) (simp_all add: wf_cell_def entries_def)
  then have "list_all wf_output (items (field (entries cell) ''outputs''))"
    by (rule outputs_all_wf)
  with assms(3) have wf: "wf_output out" by (simp add: list_all_iff)
  from assms(4,5) have nodata: "entries (field (entries out) ''data'') = []"
    by (cases d) (simp_all add: field_def entries_def)
  have 1: "\<exists>block. extract_text_from_cell cell = Inr block"
    using extract_code_cell [OF assms(1,2)] by blast
  have 2: "data_lines out = Inr []"
    by (simp add: data_lines_out [OF wf] nodata)
  have 3: "output_lines i out = Inr (spec_output_lines truthy i out)"
    by (rule output_lines_wf [OF wf])
  show ?thesis
    using 1 2 3 by (simp add: spec_output_lines_def nodata)
qed

theorem non_mapping_data_ignored_witness:
  "wf_cell (JObj [(''cell_type'', JStr ''code''), (''source'', JArr [JStr ''f()'']),
                  (''outputs'', JArr [JObj [(''output_type'', JStr ''display_data''),
                                            (''text'', JArr [JStr ''shown\<newline>'']),
                                            (''data'', JArr [JStr ''text/plain''])]])]) \<and>
   \<not> is_mapping (JArr [JStr ''text/plain'']) \<and>
   extract_text_from_cell
     (JObj [(''cell_type'', JStr ''code''), (''source'', JArr [JStr ''f()'']),
            (''outputs'', JArr [JObj [(''output_type'', JStr ''display_data''),
                                      (''text'', JArr [JStr ''shown\<newline>'']),
                                      (''data'', JArr [JStr ''text/plain''])]])])
     = Inr ''Cell type: code\<newline>-- Code --\<newline>f()\<newline>-- Outputs --\<newline>[1] output_type: display_data\<newline>shown'' \<and>
   data_lines (JObj [(''output_type'', JStr ''display_data''),
                     (''text'', JArr [JStr ''shown\<newline>'']),
                     (''data'', JArr [JStr ''text/plain''])]) = Inr [] \<and>
   output_lines 1 (JObj [(''output_type'', JStr ''display_data''),
                     (''text'', JArr [JStr ''shown\<newline>'']),
                     (''data'', JArr [JStr ''text/plain''])])
     = Inr [''[1] output_type: display_data'', ''shown'']"
proof -
  let ?o = "JObj [(''output_type'', JStr ''display_data''),
                  (''text'', JArr [JStr ''shown\<newline>'']),
                  (''data'', JArr [JStr ''text/plain''])]"
  let ?c = "JObj [(''cell_type'', JStr ''code''), (''source'', JArr [JStr ''f()'']),
                  (''outputs'', JArr [?o])]"
  have a: "wf_cell ?c" by code_simp
  have b: "map_of (entries ?c) ''cell_type'' = Some (JStr ''code'')" by code_simp
  have c: "?o \<in> set (items (field (entries ?c) ''outputs''))" by code_simp
  have d: "map_of (entries ?o) ''data'' = Some (JArr [JStr ''text/plain''])" by code_simp
  have e: "\<not> is_mapping (JArr [JStr ''text/plain''])" by simp
  have f: "(''['' @ str_nat 1 @ ''] output_type: '' @ py_str (spec_output_type ?o))
                # (if truthy (field (entries ?o) ''text'')
                   then [rstrip (concat_fragments (field (entries ?o) ''text''))] else [])
                @ (if spec_output_type ?o = JStr ''error''
                   then map (\<lambda>l. rstrip (str_of l)) (items (field (entries ?o) ''traceback''))
                   else []) = [''[1] output_type: display_data'', ''shown'']"
    by code_simp
  have g: "extract_text_from_cell ?c
     = Inr ''Cell type: code\<newline>-- Code --\<newline>f()\<newline>-- Outputs --\<newline>[1] output_type: display_data\<newline>shown''"
    by code_simp
  from non_mapping_data_ignored [OF a b c d e, of 1]
  have "data_lines ?o = Inr []" and "output_lines 1 ?o = Inr [''[1] output_type: display_data'', ''shown'']"
    unfolding f by blast+
  with a e g show ?thesis by blast
qed

section \<open>What the document renderer writes for a well-formed notebook\<close>

subsection \<open>The writes of the loop over the cells\<close>

lemma cells_blocks:
  "list_all wf_cell cs \<Longrightarrow> \<exists>blocks. map extract_text_from_cell cs = map Inr blocks"
proof (induction cs)
  case Nil
  then show ?case by simp
next
  case (Cons c cs)
  then obtain blocks where bs: "map extract_text_from_cell cs = map Inr blocks"
    by auto
  from Cons.prems have "wf_cell c" by simp
  then obtain b where b: "extract_text_from_cell c = Inr b"
    using extract_total by blast
  with bs have "map extract_text_from_cell (c # cs) = map Inr (b # blocks)"
    by simp
  then show ?case by blast
qed

lemma cells_loop_blocks:
  "map extract_text_from_cell cs = map Inr blocks \<Longrightarrow>
   cells_loop i cs =
     (concat (map (\<lambda>(k, b). [cell_header k, b, CELL_SEPARATOR]) (zip [i..<i + length blocks] blocks)),
      None)"
proof (induction cs arbitrary: i blocks)
  case Nil
  then show ?case by simp
next
  case (Cons c cs)
  then obtain b bs where blocks: "blocks = b # bs" by (cases blocks) auto
  with Cons.prems have b: "extract_text_from_cell c = Inr b"
    and bs: "map extract_text_from_cell cs = map Inr bs"
    by simp_all
  have "[i..<i + length blocks] = i # [Suc i..<i + length blocks]"
    by (rule upt_conv_Cons) (simp add: blocks)
  then have u: "[i..<i + length blocks] = i # [Suc i..<Suc i + length bs]"
    by (simp add: blocks)
  show ?case
    unfolding u by (simp add: b Cons.IH [OF bs] blocks del: upt_Suc)
qed

lemma cells_value:
  assumes "wf_notebook nb"
  shows "\<exists>c. py_get nb ''cells'' (JArr []) = Inr c \<and> py_or c (JArr []) = JArr (nb_cells nb)"
proof -
  from assms obtain kvs where nb: "nb = JObj kvs"
    by (cases nb) (simp_all add: wf_notebook_def)
  from assms have c: "\<not> present (field kvs ''cells'') \<or> cell_list (field kvs ''cells'')"
    by (simp add: wf_notebook_def nb)
  have "py_or (case map_of kvs ''cells'' of None \<Rightarrow> JArr [] | Some v \<Rightarrow> v) (JArr [])
          = JArr (items (field kvs ''cells''))"
    using c
    by (cases "map_of kvs ''cells''"; cases "field kvs ''cells''")
       (auto simp add: field_def present_def cell_list_def py_or_def items_def)
  then show ?thesis by (simp add: nb nb_cells_def entries_def)
qed

lemma cells_all_wf: "wf_notebook nb \<Longrightarrow> list_all wf_cell (nb_cells nb)"
  by (cases nb; cases "field (entries nb) ''cells''")
     (auto simp add: wf_notebook_def nb_cells_def entries_def present_def cell_list_def items_def)

lemma kernelspec_value:
  assumes "wf_notebook nb"
  shows "\<exists>md. py_get nb ''metadata'' (JObj []) = Inr md \<and>
              py_get md ''kernelspec'' (JObj []) = Inr (nb_kernelspec nb)"
proof -
  from assms obtain kvs where nb: "nb = JObj kvs"
    by (cases nb) (simp_all add: wf_notebook_def)
  show ?thesis
  proof (cases "map_of kvs ''metadata''")
    case None
    then show ?thesis by (simp add: nb nb_kernelspec_def entries_def)
  next
    case (Some md)
    with assms obtain m where "md = JObj m"
      by (cases md) (simp_all add: wf_notebook_def nb)
    with Some show ?thesis by (simp add: nb nb_kernelspec_def entries_def)
  qed
qed

lemma notebook_writes_blocks:
  assumes "wf_notebook nb" and "map extract_text_from_cell (nb_cells nb) = map Inr blocks"
  shows "notebook_writes ipynb_path nb (JArr (nb_cells nb)) =
           ((''Notebook: '' @ basename ipynb_path @ [CHR 0x0A])
            # (''Kernelspec: '' @ py_str (nb_kernelspec nb) @ [CHR 0x0A])
            # CELL_SEPARATOR
            # concat (map (\<lambda>(k, b). [cell_header k, b, CELL_SEPARATOR])
                          (zip [1..<Suc (length blocks)] blocks)),
            None)"
proof -
  from kernelspec_value [OF assms(1)] obtain md
    where md: "py_get nb ''metadata'' (JObj []) = Inr md"
      and ks: "py_get md ''kernelspec'' (JObj []) = Inr (nb_kernelspec nb)"
    by blast
  have "cells_loop (Suc 0) (nb_cells nb) =
     (concat (map (\<lambda>(k, b). [cell_header k, b, CELL_SEPARATOR])
                  (zip [Suc 0..<Suc (length blocks)] blocks)), None)"
    using cells_loop_blocks [OF assms(2), of "Suc 0"] by simp
  then show ?thesis
    by (simp add: notebook_writes_def md ks Let_def del: upt_Suc)
qed

lemma concat_triples:
  "concat (concat (map (\<lambda>(k, b). [h k, b, S]) zs)) = concat (map (\<lambda>(k, b). h k @ b @ S) zs)"
  by (induction zs) auto

lemma writes_text:
  "concat ((''Notebook: '' @ name @ [CHR 0x0A])
            # (''Kernelspec: '' @ py_str ks @ [CHR 0x0A])
            # CELL_SEPARATOR
            # concat (map (\<lambda>(k, b). [cell_header k, b, CELL_SEPARATOR])
                          (zip [1..<Suc (length blocks)] blocks)))
     = spec_document name ks blocks"
proof -
  have "(\<lambda>(k, b). cell_header k @ b @ CELL_SEPARATOR)
          = (\<lambda>(i, block). ''Cell '' @ str_nat i @ [CHR 0x0A] @ block @ CELL_SEPARATOR)"
    by (simp add: cell_header_def fun_eq_iff)
  then show ?thesis
    unfolding spec_document_def concat.simps concat_triples by simp
qed

lemma map_of_filter_other:
  "q \<noteq> p \<Longrightarrow> map_of (filter (\<lambda>kv. fst kv \<noteq> p) xs) q = map_of xs q"
  by (induction xs) auto

lemma put_file_twice: "put_file (put_file w p s) p s' = put_file w p s'"
  by (simp add: put_file_def)

lemma open_read_put_file: "open_read (put_file w p s) p = Inr s"
  by (simp add: open_read_def put_file_def)

lemma isfile_put_file: "isfile (put_file w p s) q = (q = p \<or> isfile w q)"
  by (auto simp add: isfile_def put_file_def map_of_filter_other)

lemma isdir_put_file: "isdir (put_file w p s) d = isdir w d"
  by (simp add: isdir_def put_file_def)

lemma open_read_put_file_other:
  "q \<noteq> p \<Longrightarrow> open_read w q = Inr x \<Longrightarrow> open_read (put_file w p s) q = Inr x"
  by (auto simp add: open_read_def put_file_def map_of_filter_other
        split: option.splits if_splits)

lemma open_write_Inr: "open_write w p = Inr w1 \<Longrightarrow> w1 = put_file w p []"
  by (simp add: open_write_def split: if_splits)

lemma ancestors_shorter: "q \<in> set (ancestors p) \<Longrightarrow> length q < length p"
  by (auto simp add: ancestors_def)

lemma open_write_again:
  assumes "open_write w p = Inr w1"
  shows "open_write (put_file w p s) p = Inr (put_file (put_file w p s) p [])"
proof -
  have "\<not> isfile (put_file w p s) q" if q: "q \<in> set (ancestors p)" "\<not> isfile w q" for q
    using ancestors_shorter [OF q(1)] q(2) by (auto simp add: isfile_put_file)
  then have "list_ex (isfile (put_file w p s)) (ancestors p) \<longrightarrow> list_ex (isfile w) (ancestors p)"
    by (auto simp add: list_ex_iff)
  with assms show ?thesis
    by (auto simp add: open_write_def isdir_put_file split: if_splits)
qed

lemma convert_wf:
  assumes "open_read w ipynb_path = Inr s" and "json_load ev s = Inr nb" and "wf_notebook nb"
    and "map extract_text_from_cell (nb_cells nb) = map Inr blocks"
    and "open_write w txt_path = Inr w1"
  shows "convert_notebook ev w ipynb_path txt_path =
           (put_file w1 txt_path (spec_document (basename ipynb_path) (nb_kernelspec nb) blocks),
            Inr ())"
proof -
  from cells_value [OF assms(3)] obtain c
    where c: "py_get nb ''cells'' (JArr []) = Inr c" "py_or c (JArr []) = JArr (nb_cells nb)"
    by blast
  define ws where "ws = (''Notebook: '' @ basename ipynb_path @ [CHR 0x0A])
            # (''Kernelspec: '' @ py_str (nb_kernelspec nb) @ [CHR 0x0A])
            # CELL_SEPARATOR
            # concat (map (\<lambda>(k, b). [cell_header k, b, CELL_SEPARATOR])
                          (zip [1..<Suc (length blocks)] blocks))"
  have nw: "notebook_writes ipynb_path nb (JArr (nb_cells nb)) = (ws, None)"
    unfolding ws_def by (rule notebook_writes_blocks [OF assms(3,4)])
  have cw: "concat ws = spec_document (basename ipynb_path) (nb_kernelspec nb) blocks"
    unfolding ws_def by (rule writes_text)
  show ?thesis
    by (simp add: convert_notebook_def assms(1) assms(2) assms(5) c Let_def nw cw)
qed

subsection \<open>The text of the document\<close>

lemma ends_with_separator:
  "\<exists>before. A @ S @ concat (map (\<lambda>(i, b). h i @ b @ S) zs) = before @ S"
proof (cases zs rule: rev_cases)
  case Nil
  then show ?thesis by simp
next
  case (snoc ys z)
  obtain i b where z: "z = (i, b)" by (cases z)
  have "A @ S @ concat (map (\<lambda>(i, b). h i @ b @ S) zs)
          = (A @ S @ concat (map (\<lambda>(i, b). h i @ b @ S) ys) @ h i @ b) @ S"
    by (simp add: snoc z)
  then show ?thesis by blast
qed

lemma document_ends: "\<exists>before. spec_document name ks blocks = before @ CELL_SEPARATOR"
proof -
  have "spec_document name ks blocks =
          (''Notebook: '' @ name @ [CHR 0x0A] @ ''Kernelspec: '' @ py_str ks @ [CHR 0x0A])
          @ CELL_SEPARATOR
          @ concat (map (\<lambda>(i, block). (''Cell '' @ str_nat i @ [CHR 0x0A]) @ block @ CELL_SEPARATOR)
                        (zip [1..<Suc (length blocks)] blocks))"
    by (simp add: spec_document_def)
  then show ?thesis
    using ends_with_separator
      [of "''Notebook: '' @ name @ [CHR 0x0A] @ ''Kernelspec: '' @ py_str ks @ [CHR 0x0A]"
          CELL_SEPARATOR "\<lambda>i. ''Cell '' @ str_nat i @ [CHR 0x0A]"
          "zip [1..<Suc (length blocks)] blocks"]
    by simp
qed

text \<open>
  Claim C1. For every well-formed notebook document, read from \<open>ipynb_path\<close> and written
  to a \<open>txt_path\<close> that can be opened, \<^verbatim>\<open>convert_notebook\<close> returns normally and the text
  of the output file is: the line \<^verbatim>\<open>Notebook:\<close> with the base name of the input file, the
  line \<^verbatim>\<open>Kernelspec:\<close> with the value of \<^verbatim>\<open>kernelspec\<close> in \<^verbatim>\<open>metadata\<close> (the empty mapping when
  absent), the separator (a newline, eighty \<^verbatim>\<open>-\<close>, a newline), then for each cell in input
  order, counted from 1, the line \<^verbatim>\<open>Cell N\<close>, the rendered block of the cell and the
  separator. The text ends with a separator.
\<close>

theorem rendered_document:
  assumes "open_read w ipynb_path = Inr s" and "json_load ev s = Inr nb" and "wf_notebook nb"
    and "open_write w txt_path = Inr w1"
  shows "\<exists>blocks text.
           map extract_text_from_cell (nb_cells nb) = map Inr blocks \<and>
           text = ''Notebook: '' @ basename ipynb_path @ [CHR 0x0A]
                  @ ''Kernelspec: '' @ py_str (nb_kernelspec nb) @ [CHR 0x0A]
                  @ CELL_SEPARATOR
                  @ concat (map (\<lambda>(i, block). ''Cell '' @ str_nat i @ [CHR 0x0A] @ block @ CELL_SEPARATOR)
                                (zip [1..<Suc (length blocks)] blocks)) \<and>
           (\<exists>before. text = before @ CELL_SEPARATOR) \<and>
           convert_notebook ev w ipynb_path txt_path = (put_file w1 txt_path text, Inr ()) \<and>
           open_read (put_file w1 txt_path text) txt_path = Inr text"
proof -
  from cells_blocks [OF cells_all_wf [OF assms(3)]] obtain blocks
    where blocks: "map extract_text_from_cell (nb_cells nb) = map Inr blocks"
    by blast
  define doc where "doc = spec_document (basename ipynb_path) (nb_kernelspec nb) blocks"
  have 1: "doc = ''Notebook: '' @ basename ipynb_path @ [CHR 0x0A]
                  @ ''Kernelspec: '' @ py_str (nb_kernelspec nb) @ [CHR 0x0A]
                  @ CELL_SEPARATOR
                  @ concat (map (\<lambda>(i, block). ''Cell '' @ str_nat i @ [CHR 0x0A] @ block @ CELL_SEPARATOR)
                                (zip [1..<Suc (length blocks)] blocks))"
    unfolding doc_def spec_document_def ..
  have 2: "\<exists>before. doc = before @ CELL_SEPARATOR"
    unfolding doc_def by (rule document_ends)
  have 3: "convert_notebook ev w ipynb_path txt_path = (put_file w1 txt_path doc, Inr ())"
    unfolding doc_def by (rule convert_wf [OF assms(1,2,3) blocks assms(4)])
  have 4: "open_read (put_file w1 txt_path doc) txt_path = Inr doc"
    by (rule open_read_put_file)
  from blocks 1 2 3 4 show ?thesis by blast
qed


theorem rendered_document_witness:
  "open_read example_world ''nb/a.ipynb'' = Inr ''A'' \<and>
   json_load example_env ''A'' = Inr example_notebook \<and>
   wf_notebook example_notebook \<and>
   open_write example_world ''out/a.txt'' = Inr (put_file example_world ''out/a.txt'' []) \<and>
   (\<exists>blocks text.
      map extract_text_from_cell (nb_cells example_notebook) = map Inr blocks \<and>
      text = ''Notebook: '' @ basename ''nb/a.ipynb'' @ [CHR 0x0A]
             @ ''Kernelspec: '' @ py_str (nb_kernelspec example_notebook) @ [CHR 0x0A]
             @ CELL_SEPARATOR
             @ concat (map (\<lambda>(i, block). ''Cell '' @ str_nat i @ [CHR 0x0A] @ block @ CELL_SEPARATOR)
                           (zip [1..<Suc (length blocks)] blocks)) \<and>
      (\<exists>before. text = before @ CELL_SEPARATOR) \<and>
      convert_notebook example_env example_world ''nb/a.ipynb'' ''out/a.txt''
        = (put_file (put_file example_world ''out/a.txt'' []) ''out/a.txt'' text, Inr ()) \<and>
      open_read (put_file (put_file example_world ''out/a.txt'' []) ''out/a.txt'' text) ''out/a.txt''
        = Inr text) \<and>
   py_str (nb_kernelspec example_notebook)
     = ''{'' @ [CHR 0x27] @ ''display_name'' @ [CHR 0x27] @ '': '' @ [CHR 0x27] @ ''Python 3''
       @ [CHR 0x27] @ '', '' @ [CHR 0x27] @ ''name'' @ [CHR 0x27] @ '': '' @ [CHR 0x27]
       @ ''python3'' @ [CHR 0x27] @ ''}'' \<and>
   open_read (fst (convert_notebook example_env example_world ''nb/a.ipynb'' ''out/a.txt''))
       ''out/a.txt''
     = Inr (''Notebook: a.ipynb\<newline>Kernelspec: '' @ py_str (nb_kernelspec example_notebook)
            @ ''\<newline>\<newline>'' @ replicate 80 CHR ''-''
            @ ''\<newline>Cell 1\<newline>Cell type: markdown\<newline>-- Markdown --\<newline># Title\<newline>body\<newline>''
            @ replicate 80 CHR ''-''
            @ ''\<newline>Cell 2\<newline>Cell type: code\<newline>-- Code --\<newline>print(1)\<newline>-- Outputs --\<newline>[1] output_type: stream\<newline>1\<newline>''
            @ replicate 80 CHR ''-'' @ ''\<newline>'')"
proof -
  have a: "open_read example_world ''nb/a.ipynb'' = Inr ''A''" by code_simp
  have b: "json_load example_env ''A'' = Inr example_notebook" by (simp add: example_env_def)
  have c: "wf_notebook example_notebook" by code_simp
  have d: "open_write example_world ''out/a.txt'' = Inr (put_file example_world ''out/a.txt'' [])"
    by code_simp
  have e: "py_str (nb_kernelspec example_notebook)
     = ''{'' @ [CHR 0x27] @ ''display_name'' @ [CHR 0x27] @ '': '' @ [CHR 0x27] @ ''Python 3''
       @ [CHR 0x27] @ '', '' @ [CHR 0x27] @ ''name'' @ [CHR 0x27] @ '': '' @ [CHR 0x27]
       @ ''python3'' @ [CHR 0x27] @ ''}''"
    by code_simp
  have f: "open_read (fst (convert_notebook example_env example_world ''nb/a.ipynb'' ''out/a.txt''))
       ''out/a.txt''
     = Inr (''Notebook: a.ipynb\<newline>Kernelspec: '' @ py_str (nb_kernelspec example_notebook)
            @ ''\<newline>\<newline>'' @ replicate 80 CHR ''-''
            @ ''\<newline>Cell 1\<newline>Cell type: markdown\<newline>-- Markdown --\<newline># Title\<newline>body\<newline>''
            @ replicate 80 CHR ''-''
            @ ''\<newline>Cell 2\<newline>Cell type: code\<newline>-- Code --\<newline>print(1)\<newline>-- Outputs --\<newline>[1] output_type: stream\<newline>1\<newline>''
            @ replicate 80 CHR ''-'' @ ''\<newline>'')"
    by code_simp
  note g = rendered_document [OF a b c d]
  from a b c d g e f show ?thesis by (intro conjI)
qed

subsection \<open>The header lines of the output\<close>

















subsection \<open>The output depends on the document and the name of the input\<close>

text \<open>
  Claim C6, amended. The output text is a function of the input document and of the base
  name of the input file: two runs on inputs with the same text and the same base name,
  in any two states of the file system and to any two output files that can be opened,
  both return normally and write the same text; and a second run after the first writes
  the same text again and changes nothing.
\<close>

theorem output_determined_by_document_and_name:
  assumes "open_read w ipynb_path = Inr s" and "open_read w' ipynb_path' = Inr s"
    and "basename ipynb_path = basename ipynb_path'"
    and "json_load ev s = Inr nb" and "wf_notebook nb"
    and "open_write w txt_path = Inr w1" and "open_write w' txt_path' = Inr w1'"
    and "txt_path \<noteq> ipynb_path"
  shows "\<exists>text.
           convert_notebook ev w ipynb_path txt_path = (put_file w1 txt_path text, Inr ()) \<and>
           convert_notebook ev w' ipynb_path' txt_path' = (put_file w1' txt_path' text, Inr ()) \<and>
           open_read (put_file w1 txt_path text) txt_path = Inr text \<and>
           open_read (put_file w1' txt_path' text) txt_path' = Inr text \<and>
           convert_notebook ev (put_file w1 txt_path text) ipynb_path txt_path
             = (put_file w1 txt_path text, Inr ())"
proof -
  from cells_blocks [OF cells_all_wf [OF assms(5)]] obtain blocks
    where blocks: "map extract_text_from_cell (nb_cells nb) = map Inr blocks"
    by blast
  define doc where "doc = spec_document (basename ipynb_path) (nb_kernelspec nb) blocks"
  have w1: "w1 = put_file w txt_path []" using assms(6) by (rule open_write_Inr)
  have a: "convert_notebook ev w ipynb_path txt_path = (put_file w1 txt_path doc, Inr ())"
    unfolding doc_def by (rule convert_wf [OF assms(1,4,5) blocks assms(6)])
  have b: "convert_notebook ev w' ipynb_path' txt_path' = (put_file w1' txt_path' doc, Inr ())"
    unfolding doc_def assms(3) by (rule convert_wf [OF assms(2,4,5) blocks assms(7)])
  have r: "open_read (put_file w txt_path doc) ipynb_path = Inr s"
    using assms(8) assms(1) by (simp add: open_read_put_file_other)
  have o: "open_write (put_file w txt_path doc) txt_path
             = Inr (put_file (put_file w txt_path doc) txt_path [])"
    using assms(6) by (rule open_write_again)
  have "convert_notebook ev (put_file w txt_path doc) ipynb_path txt_path
          = (put_file (put_file (put_file w txt_path doc) txt_path []) txt_path doc, Inr ())"
    unfolding doc_def by (rule convert_wf [OF r [unfolded doc_def] assms(4,5) blocks o [unfolded doc_def]])
  then have c: "convert_notebook ev (put_file w1 txt_path doc) ipynb_path txt_path
          = (put_file w1 txt_path doc, Inr ())"
    by (simp add: w1 put_file_twice)
  from a b c show ?thesis by (auto simp add: open_read_put_file)
qed

theorem output_determined_by_document_and_name_witness:
  "open_read example_world ''nb/a.ipynb'' = Inr ''A'' \<and>
   open_read \<lparr>files = [(''other/a.ipynb'', ''A'')], dirs = [(''other'', [''a.ipynb''])]\<rparr>
     ''other/a.ipynb'' = Inr ''A'' \<and>
   basename ''nb/a.ipynb'' = basename ''other/a.ipynb'' \<and>
   json_load example_env ''A'' = Inr example_notebook \<and>
   wf_notebook example_notebook \<and>
   open_write example_world ''out/a.txt'' = Inr (put_file example_world ''out/a.txt'' []) \<and>
   open_write \<lparr>files = [(''other/a.ipynb'', ''A'')], dirs = [(''other'', [''a.ipynb''])]\<rparr> ''a.txt''
     = Inr (put_file \<lparr>files = [(''other/a.ipynb'', ''A'')], dirs = [(''other'', [''a.ipynb''])]\<rparr>
              ''a.txt'' []) \<and>
   ''out/a.txt'' \<noteq> ''nb/a.ipynb'' \<and>
   (\<exists>text.
      convert_notebook example_env example_world ''nb/a.ipynb'' ''out/a.txt''
        = (put_file (put_file example_world ''out/a.txt'' []) ''out/a.txt'' text, Inr ()) \<and>
      convert_notebook example_env
          \<lparr>files = [(''other/a.ipynb'', ''A'')], dirs = [(''other'', [''a.ipynb''])]\<rparr>
          ''other/a.ipynb'' ''a.txt''
        = (put_file (put_file \<lparr>files = [(''other/a.ipynb'', ''A'')],
                                dirs = [(''other'', [''a.ipynb''])]\<rparr> ''a.txt'' [])
             ''a.txt'' text, Inr ()) \<and>
      open_read (put_file (put_file example_world ''out/a.txt'' []) ''out/a.txt'' text) ''out/a.txt''
        = Inr text \<and>
      open_read (put_file (put_file \<lparr>files = [(''other/a.ipynb'', ''A'')],
                                     dirs = [(''other'', [''a.ipynb''])]\<rparr> ''a.txt'' [])
                  ''a.txt'' text) ''a.txt''
        = Inr text \<and>
      convert_notebook example_env
          (put_file (put_file example_world ''out/a.txt'' []) ''out/a.txt'' text)
          ''nb/a.ipynb'' ''out/a.txt''
        = (put_file (put_file example_world ''out/a.txt'' []) ''out/a.txt'' text, Inr ()))"
proof -
  let ?w = "\<lparr>files = [(''other/a.ipynb'', ''A'')], dirs = [(''other'', [''a.ipynb''])]\<rparr>"
  have a: "open_read example_world ''nb/a.ipynb'' = Inr ''A''" by code_simp
  have b: "open_read ?w ''other/a.ipynb'' = Inr ''A''" by code_simp
  have c: "basename ''nb/a.ipynb'' = basename ''other/a.ipynb''" by code_simp
  have d: "json_load example_env ''A'' = Inr example_notebook" by (simp add: example_env_def)
  have e: "wf_notebook example_notebook" by code_simp
  have f: "open_write example_world ''out/a.txt'' = Inr (put_file example_world ''out/a.txt'' [])"
    by code_simp
  have g: "open_write ?w ''a.txt'' = Inr (put_file ?w ''a.txt'' [])" by code_simp
  have h: "''out/a.txt'' \<noteq> ''nb/a.ipynb''" by simp
  note i = output_determined_by_document_and_name [OF a b c d e f g h]
  from a b c d e f g h i show ?thesis by (intro conjI)
qed

text \<open>
  As the claim is stated, the text is a function of the document alone. The files
  \<^verbatim>\<open>nb/a.ipynb\<close> and \<^verbatim>\<open>nb/c.ipynb\<close> hold the same text, both are converted without error
  to the same output path, and the two output texts differ: line 84 writes the name of
  the input file.
\<close>

theorem other_name_counterexample:
  "open_read example_world ''nb/a.ipynb'' = Inr ''A'' \<and>
   open_read example_world ''nb/c.ipynb'' = Inr ''A'' \<and>
   snd (convert_notebook example_env example_world ''nb/a.ipynb'' ''out/x.txt'') = Inr () \<and>
   snd (convert_notebook example_env example_world ''nb/c.ipynb'' ''out/x.txt'') = Inr () \<and>
   open_read (fst (convert_notebook example_env example_world ''nb/a.ipynb'' ''out/x.txt''))
       ''out/x.txt''
     \<noteq> open_read (fst (convert_notebook example_env example_world ''nb/c.ipynb'' ''out/x.txt''))
         ''out/x.txt''"
  by code_simp

section \<open>The batch\<close>

subsection \<open>The loop over the discovered files\<close>

lemma makedirs_isdir:
  assumes "makedirs w d = Inr w1"
  shows "isdir w1 d \<and> files w1 = files w"
proof (cases "isdir w d")
  case True
  with assms show ?thesis by (simp add: makedirs_def)
next
  case False
  define new where "new = map (\<lambda>p. (p, [] :: string list)) (filter (\<lambda>p. \<not> isdir w p) (ancestors d @ [d]))"
  from False assms have w1: "w1 = w\<lparr>dirs := new @ dirs w\<rparr>"
    by (simp add: makedirs_def new_def split: if_splits option.splits)
  from False have "d \<in> fst ` set new" by (force simp add: new_def)
  then have "map_of new d \<noteq> None" by (simp add: map_of_eq_None_iff)
  then have "map_of (new @ dirs w) d \<noteq> None" by (auto simp add: map_add_def split: option.splits)
  then show ?thesis by (simp add: w1 isdir_def)
qed

lemma makedirs_existing: "isdir w d \<Longrightarrow> makedirs w d = Inr w"
  by (simp add: makedirs_def)

lemma convert_notebook_dirs: "dirs (fst (convert_notebook ev w p t)) = dirs w"
  by (auto simp add: convert_notebook_def open_write_def put_file_def Let_def
           split: sum.splits prod.splits if_splits)

lemma files_loop_completes:
  "isdir w d \<Longrightarrow>
   \<exists>w' out. files_loop ev d ow w ps = (w', out, Inr 0) \<and> length out = length ps \<and> isdir w' d"
proof (induction ps arbitrary: w)
  case Nil
  then show ?case by simp
next
  case (Cons p ps)
  let ?txt = "path_join d (fst (splitext (basename p)) @ ''.txt'')"
  note m = makedirs_existing [OF Cons.prems]
  show ?case
  proof (cases "exists_path w ?txt \<and> \<not> ow")
    case True
    from Cons.IH [OF Cons.prems] obtain w' out
      where "files_loop ev d ow w ps = (w', out, Inr 0)" "length out = length ps" "isdir w' d"
      by blast
    with m show ?thesis by (simp add: Let_def True)
  next
    case False
    obtain w2 r where c: "convert_notebook ev w p ?txt = (w2, r)" by (cases "convert_notebook ev w p ?txt")
    have "dirs w2 = dirs w" using convert_notebook_dirs [of ev w p ?txt] by (simp add: c)
    with Cons.prems have "isdir w2 d" by (simp add: isdir_def)
    from Cons.IH [OF this] obtain w' out
      where "files_loop ev d ow w2 ps = (w', out, Inr 0)" "length out = length ps" "isdir w' d"
      by blast
    with m c show ?thesis by (cases r) (simp_all add: Let_def False)
  qed
qed

lemma files_loop_makedirs_fails:
  "makedirs w d = Inl e \<Longrightarrow> files_loop ev d ow w (p # ps) = (w, [], Inl e)"
  by (simp add: Let_def)

lemma files_loop_Cons:
  assumes "makedirs w d = Inr wa"
  shows "\<exists>wn msg. \<forall>ys. files_loop ev d ow w (x # ys) =
           (case files_loop ev d ow wn ys of (w', out, r) \<Rightarrow> (w', msg # out, r))"
proof -
  let ?txt = "path_join d (fst (splitext (basename x)) @ ''.txt'')"
  show ?thesis
  proof (cases "exists_path wa ?txt \<and> \<not> ow")
    case True
    with assms have "\<forall>ys. files_loop ev d ow w (x # ys) =
        (case files_loop ev d ow wa ys of
           (w', out, r) \<Rightarrow> (w', (''Skipping existing file (use --overwrite to replace): '' @ ?txt) # out, r))"
      by (simp add: Let_def True)
    then show ?thesis by blast
  next
    case False
    obtain w2 r where c: "convert_notebook ev wa x ?txt = (w2, r)"
      by (cases "convert_notebook ev wa x ?txt")
    show ?thesis
    proof (cases r)
      case (Inl e)
      with assms c have "\<forall>ys. files_loop ev d ow w (x # ys) =
        (case files_loop ev d ow w2 ys of
           (w', out, r) \<Rightarrow> (w', (''Failed to convert '' @ x @ '': '' @ exc_str e) # out, r))"
        by (simp add: Let_def False)
      then show ?thesis by blast
    next
      case (Inr u)
      with assms c have "\<forall>ys. files_loop ev d ow w (x # ys) =
        (case files_loop ev d ow w2 ys of
           (w', out, r) \<Rightarrow> (w', (''Converted: '' @ x @ '' -> '' @ ?txt) # out, r))"
        by (simp add: Let_def False)
      then show ?thesis by blast
    qed
  qed
qed

lemma files_loop_append:
  "files_loop ev d ow w xs = (w1, out1, Inr 0) \<Longrightarrow>
   files_loop ev d ow w (xs @ zs) =
     (case files_loop ev d ow w1 zs of (w', out2, r) \<Rightarrow> (w', out1 @ out2, r))"
proof (induction xs arbitrary: w out1)
  case Nil
  then show ?case by (simp split: prod.splits)
next
  case (Cons x xs)
  show ?case
  proof (cases "makedirs w d")
    case (Inl e)
    with Cons.prems show ?thesis by (simp add: Let_def)
  next
    case (Inr wa)
    from files_loop_Cons [OF Inr, of ev ow x] obtain wn msg
      where step: "\<And>ys. files_loop ev d ow w (x # ys) =
           (case files_loop ev d ow wn ys of (w', out, r) \<Rightarrow> (w', msg # out, r))"
      by blast
    obtain w'' out' r' where l: "files_loop ev d ow wn xs = (w'', out', r')"
      by (cases "files_loop ev d ow wn xs")
    with Cons.prems step [of xs] have "w'' = w1" "out1 = msg # out'" "r' = Inr 0"
      by simp_all
    with l have "files_loop ev d ow wn xs = (w1, out', Inr 0)" by simp
    from Cons.IH [OF this] have "files_loop ev d ow wn (xs @ zs) =
        (case files_loop ev d ow w1 zs of (w', out2, r) \<Rightarrow> (w', out' @ out2, r))" .
    with step [of "xs @ zs"] \<open>out1 = msg # out'\<close> show ?thesis
      by (simp split: prod.splits)
  qed
qed

text \<open>
  An exception that \<^verbatim>\<open>convert_notebook\<close> raises is caught: when the files \<open>before\<close> have
  been processed, the output directory is there (line 132), the output file is not
  skipped (line 135) and the conversion of \<open>ipynb\<close> raises \<open>e\<close> (line 140), the line
  \<^verbatim>\<open>Failed to convert <path>: <message>\<close> is printed after the lines of the files before,
  each remaining file gets its line, and \<^verbatim>\<open>main\<close> returns 0.
\<close>

lemma conversion_failure_reported:
  assumes "find_ipynb_files w (path a) = before @ ipynb # rest"
    and "target_dir = (case outdir a of None \<Rightarrow> script_dir ev
                        | Some d \<Rightarrow> if d \<noteq> [] then d else script_dir ev)"
    and "files_loop ev target_dir (overwrite a) w before = (w1, out1, Inr 0)"
    and "makedirs w1 target_dir = Inr w2"
    and "txt_path = path_join target_dir (fst (splitext (basename ipynb)) @ ''.txt'')"
    and "\<not> (exists_path w2 txt_path \<and> \<not> overwrite a)"
    and "convert_notebook ev w2 ipynb txt_path = (w3, Inl e)"
  shows "\<exists>w' out2.
           main ev w a =
             (w', out1 @ (''Failed to convert '' @ ipynb @ '': '' @ exc_str e) # out2, Inr 0) \<and>
           length out2 = length rest"
proof -
  have "dirs w3 = dirs w2"
    using convert_notebook_dirs [of ev w2 ipynb txt_path] by (simp add: assms(7))
  moreover from assms(4) have "isdir w2 target_dir" using makedirs_isdir by blast
  ultimately have "isdir w3 target_dir" by (simp add: isdir_def)
  from files_loop_completes [OF this, of ev "overwrite a" rest] obtain w' out2
    where r: "files_loop ev target_dir (overwrite a) w3 rest = (w', out2, Inr 0)"
      and len: "length out2 = length rest"
    by blast
  have one: "files_loop ev target_dir (overwrite a) w1 (ipynb # rest) =
          (w', (''Failed to convert '' @ ipynb @ '': '' @ exc_str e) # out2, Inr 0)"
    using assms(4,7) r by (simp add: Let_def assms(5) [symmetric] assms(6))
  have "files_loop ev target_dir (overwrite a) w (before @ ipynb # rest) =
          (w', out1 @ (''Failed to convert '' @ ipynb @ '': '' @ exc_str e) # out2, Inr 0)"
    unfolding files_loop_append [OF assms(3), of "ipynb # rest"] one by simp
  then have "main ev w a =
          (w', out1 @ (''Failed to convert '' @ ipynb @ '': '' @ exc_str e) # out2, Inr 0)"
    by (simp add: main_def assms(1) assms(2) [symmetric] Let_def)
  with len show ?thesis by blast
qed

subsection \<open>The exit status\<close>

text \<open>
  What \<^verbatim>\<open>main\<close> returns: 2 and one line, with nothing written, when no candidate is
  found; 0 and one line for each candidate when the output directory is there or can be
  created; and the exception of \<^verbatim>\<open>os.makedirs\<close> when it cannot, since line 132 stands
  outside the \<^verbatim>\<open>try\<close> of lines 139 to 143.
\<close>

lemma main_no_candidates:
  "find_ipynb_files w (path a) = [] \<Longrightarrow>
   main ev w a = (w, [''No .ipynb files found at: '' @ path a], Inr 2)"
  by (simp add: main_def)

lemma files_loop_started:
  assumes "makedirs w d = Inr w1"
  shows "\<exists>w' out. files_loop ev d ow w (p # ps) = (w', out, Inr 0) \<and> length out = Suc (length ps)"
proof -
  let ?txt = "path_join d (fst (splitext (basename p)) @ ''.txt'')"
  from assms have d1: "isdir w1 d" using makedirs_isdir by blast
  show ?thesis
  proof (cases "exists_path w1 ?txt \<and> \<not> ow")
    case True
    from files_loop_completes [OF d1, of ev ow ps] obtain w' out
      where "files_loop ev d ow w1 ps = (w', out, Inr 0)" "length out = length ps"
      by blast
    with assms show ?thesis by (simp add: Let_def True)
  next
    case False
    obtain w2 r where c: "convert_notebook ev w1 p ?txt = (w2, r)"
      by (cases "convert_notebook ev w1 p ?txt")
    have "dirs w2 = dirs w1"
      using convert_notebook_dirs [of ev w1 p ?txt] by (simp add: c)
    with d1 have "isdir w2 d" by (simp add: isdir_def)
    from files_loop_completes [OF this, of ev ow ps] obtain w' out
      where "files_loop ev d ow w2 ps = (w', out, Inr 0)" "length out = length ps"
      by blast
    with assms c show ?thesis by (cases r) (simp_all add: Let_def False)
  qed
qed

lemma main_completes:
  assumes "find_ipynb_files w (path a) \<noteq> []"
    and "makedirs w (case outdir a of None \<Rightarrow> script_dir ev
                        | Some d \<Rightarrow> if d \<noteq> [] then d else script_dir ev) = Inr w1"
  shows "\<exists>w' out. main ev w a = (w', out, Inr 0) \<and>
           length out = length (find_ipynb_files w (path a))"
proof -
  from assms(1) obtain p ps where ps: "find_ipynb_files w (path a) = p # ps"
    by (cases "find_ipynb_files w (path a)") auto
  from files_loop_started [OF assms(2), of ev "overwrite a" p ps]
  show ?thesis by (simp add: main_def ps Let_def)
qed

lemma main_aborts:
  assumes "find_ipynb_files w (path a) \<noteq> []"
    and "makedirs w (case outdir a of None \<Rightarrow> script_dir ev
                        | Some d \<Rightarrow> if d \<noteq> [] then d else script_dir ev) = Inl e"
  shows "main ev w a = (w, [], Inl e)"
proof -
  from assms(1) obtain p ps where ps: "find_ipynb_files w (path a) = p # ps"
    by (cases "find_ipynb_files w (path a)") auto
  from assms(2) show ?thesis by (simp add: main_def ps Let_def)
qed

lemma main_exit_status:
  "exit_status (snd (snd (main ev w a))) =
     (if find_ipynb_files w (path a) = [] then 2
      else case makedirs w (case outdir a of None \<Rightarrow> script_dir ev
                             | Some d \<Rightarrow> if d \<noteq> [] then d else script_dir ev) of
             Inl e \<Rightarrow> 1
           | Inr w1 \<Rightarrow> 0)"
proof (cases "find_ipynb_files w (path a) = []")
  case True
  then show ?thesis by (simp add: main_no_candidates exit_status_def)
next
  case False
  show ?thesis
  proof (cases "makedirs w (case outdir a of None \<Rightarrow> script_dir ev
                             | Some d \<Rightarrow> if d \<noteq> [] then d else script_dir ev)")
    case (Inl e)
    from main_aborts [OF False Inl] show ?thesis by (simp add: False Inl exit_status_def)
  next
    case (Inr w1)
    from main_completes [OF False Inr] show ?thesis by (auto simp add: False Inr exit_status_def)
  qed
qed

subsection \<open>An output directory that cannot be created\<close>

text \<open>
  Claim C7 says that no error of one file aborts the batch. With the command line
  \<^verbatim>\<open>nb -o nb/notes.txt\<close>, where \<^verbatim>\<open>nb\<close> holds three candidates and \<^verbatim>\<open>nb/notes.txt\<close> is a
  regular file, \<^verbatim>\<open>os.makedirs\<close> raises for the first file, outside the \<^verbatim>\<open>try\<close>: the
  exception leaves \<^verbatim>\<open>main\<close>, no line is printed, not even \<^verbatim>\<open>Failed to convert\<close>, no file
  is converted and the file system is as it was.
\<close>

theorem uncreatable_outdir_aborts_batch:
  "find_ipynb_files example_world ''nb'' = [''nb/a.ipynb'', ''nb/b.ipynb'', ''nb/c.ipynb''] \<and>
   isfile example_world ''nb/notes.txt'' \<and>
   fst (main example_env example_world
          \<lparr>path = ''nb'', outdir = Some ''nb/notes.txt'', overwrite = False\<rparr>) = example_world \<and>
   fst (snd (main example_env example_world
               \<lparr>path = ''nb'', outdir = Some ''nb/notes.txt'', overwrite = False\<rparr>)) = [] \<and>
   snd (snd (main example_env example_world
               \<lparr>path = ''nb'', outdir = Some ''nb/notes.txt'', overwrite = False\<rparr>))
     = Inl (OSError (''[Errno 17] File exists: '' @ [CHR 0x27] @ ''nb/notes.txt'' @ [CHR 0x27]))"
  by code_simp

text \<open>
  Claim C8 says that the exit status is 0 whenever at least one candidate file is found.
  With the command line \<^verbatim>\<open>nb/a.ipynb -o nb/notes.txt --overwrite\<close>, where \<^verbatim>\<open>nb/a.ipynb\<close> is
  a notebook and \<^verbatim>\<open>nb/notes.txt\<close> a regular file, one candidate is found, \<^verbatim>\<open>os.makedirs\<close>
  raises, nothing is printed and the exception leaves \<^verbatim>\<open>main\<close>: the exit status is 1.
\<close>

theorem uncreatable_outdir_exit_status:
  "find_ipynb_files example_world ''nb/a.ipynb'' = [''nb/a.ipynb''] \<and>
   isfile example_world ''nb/notes.txt'' \<and>
   fst (snd (main example_env example_world
               \<lparr>path = ''nb/a.ipynb'', outdir = Some ''nb/notes.txt'', overwrite = True\<rparr>)) = [] \<and>
   snd (snd (main example_env example_world
               \<lparr>path = ''nb/a.ipynb'', outdir = Some ''nb/notes.txt'', overwrite = True\<rparr>))
     = Inl (OSError (''[Errno 17] File exists: '' @ [CHR 0x27] @ ''nb/notes.txt'' @ [CHR 0x27])) \<and>
   exit_status (snd (snd (main example_env example_world
               \<lparr>path = ''nb/a.ipynb'', outdir = Some ''nb/notes.txt'', overwrite = True\<rparr>))) = 1"
  by code_simp

end
